theory Spec2Isabelle
  imports Complex_Main "HOL-Library.Multiset"
begin

section \<open>Numbers, vectors and undefined behaviour\<close>

text \<open>
  The C++ sources store depths (metres) and setpoints (bar) as \<open>double\<close> and only copy
  and compare them in the functions embedded here; no arithmetic is done on them. The
  values held in the setpoint list, in a gas, in a stop step and in a file are modelled
  by \<^typ>\<open>real\<close>: the comparisons \<open><\<close>, \<open>\<ge>\<close>, \<open>>\<close> and \<open>==\<close> of two numbers that are not NaN
  agree with the order of the reals. A list that holds a NaN is outside the model.

  The depth that a caller hands to \<open>getSetPointAtDepth\<close> is any \<open>double\<close>: a number or
  NaN. IEEE 754 makes every ordered comparison with NaN false.

  A \<open>std::vector\<close> is a list. \<open>operator[]\<close> and \<open>erase\<close> past the end, and the use of a
  variable that was never given a value, are undefined behaviour in C++; the model makes
  them the result \<^term>\<open>None\<close>, so a function whose result is \<open>Some \<dots>\<close> ran without
  any of them.
\<close>

datatype double = Num real | NaN

fun d_lt :: "double \<Rightarrow> double \<Rightarrow> bool" where
  "d_lt (Num x) (Num y) = (x < y)"
| "d_lt _ _ = False"

fun d_ge :: "double \<Rightarrow> double \<Rightarrow> bool" where
  "d_ge (Num x) (Num y) = (x \<ge> y)"
| "d_ge _ _ = False"

definition vec_at :: "'a list \<Rightarrow> nat \<Rightarrow> 'a option" where
  "vec_at xs i = (if i < length xs then Some (xs ! i) else None)"

definition vec_erase :: "'a list \<Rightarrow> nat \<Rightarrow> 'a list option" where
  "vec_erase xs i = (if i < length xs then Some (take i xs @ drop (Suc i) xs) else None)"

section \<open>The class SetPoints\<close>

record Parameters =
  m_maxPpO2Diluent :: real

record SetPoints =
  m_depths :: "real list"
  m_setPoints :: "real list"

text \<open>
  Modelled from the spec: \<open>set_points.hpp\<close> is not among the sources, so the body of
  \<open>nbOfSetPoints()\<close> is not known. It is taken to be the size of \<open>m_depths\<close>, the vector
  that the member functions of the class measure.
\<close>

definition nbOfSetPoints :: "SetPoints \<Rightarrow> nat" where
  "nbOfSetPoints s = length (m_depths s)"

text \<open>
  The class keeps the two vectors parallel: entry \<open>i\<close> of the setpoint list is the pair
  \<open>(m_depths[i], m_setPoints[i])\<close>.
\<close>

definition well_formed :: "SetPoints \<Rightarrow> bool" where
  "well_formed s = (length (m_depths s) = length (m_setPoints s))"

definition pairs :: "SetPoints \<Rightarrow> (real \<times> real) list" where
  "pairs s = zip (m_depths s) (m_setPoints s)"

subsection \<open>sortSetPoints\<close>

text \<open>The lambda handed to \<open>std::sort\<close>: \<open>sort_before a b\<close> holds when \<open>a\<close> must come before \<open>b\<close>.\<close>

definition sort_before :: "real \<times> real \<Rightarrow> real \<times> real \<Rightarrow> bool" where
  "sort_before a b = (if fst a = fst b then snd a > snd b else fst a > fst b)"

text \<open>
  \<open>std::sort\<close> is modelled by insertion sort with the same comparator. The comparator
  is a strict total order on pairs (two pairs that it does not separate are equal), so
  the sorted arrangement of a given vector is unique (lemma \<open>std_sort_unique\<close> below) and
  every correct sorting algorithm returns it.
\<close>

fun insert_sorted :: "real \<times> real \<Rightarrow> (real \<times> real) list \<Rightarrow> (real \<times> real) list" where
  "insert_sorted x [] = [x]"
| "insert_sorted x (y # ys) = (if sort_before y x then y # insert_sorted x ys else x # y # ys)"

definition std_sort :: "(real \<times> real) list \<Rightarrow> (real \<times> real) list" where
  "std_sort xs = foldr insert_sorted xs []"

text \<open>The first loop of \<open>sortSetPoints\<close>: pair \<open>m_depths[i]\<close> with \<open>m_setPoints[i]\<close> for
  every index of \<open>m_depths\<close>.\<close>

fun make_pairs :: "real list \<Rightarrow> real list \<Rightarrow> (real \<times> real) list option" where
  "make_pairs [] sps = Some []"
| "make_pairs (d # ds) [] = None"
| "make_pairs (d # ds) (p # sps) = map_option ((#) (d, p)) (make_pairs ds sps)"

definition sortSetPoints :: "SetPoints \<Rightarrow> SetPoints option" where
  "sortSetPoints s =
     (case make_pairs (m_depths s) (m_setPoints s) of
        None \<Rightarrow> None
      | Some depthSetpoints \<Rightarrow>
          (let sortedPairs = std_sort depthSetpoints
           in Some \<lparr>m_depths = map fst sortedPairs, m_setPoints = map snd sortedPairs\<rparr>))"

subsection \<open>getSetPointAtDepth\<close>

text \<open>The \<open>return\<close> statement that produced the result.\<close>

datatype branch = NoSetPoints | CaseA | CaseB | CaseC nat | Fallback

text \<open>
  The \<open>for\<close> loop of case C, from index \<open>i\<close> on. Inside the loop \<open>i + 1 < size\<close>, so both
  reads of \<open>m_depths\<close> are in range. The function is only called on a non-empty
  \<open>m_depths\<close>, where the unsigned \<open>size() - 1\<close> does not wrap.
\<close>

function scan :: "double \<Rightarrow> real list \<Rightarrow> real list \<Rightarrow> nat \<Rightarrow> (branch \<times> real) option" where
  "scan depth ds sps i =
     (if i < length ds - 1 then
        (if d_lt depth (Num (ds ! i)) \<and> d_ge depth (Num (ds ! (i + 1)))
         then map_option (Pair (CaseC i)) (vec_at sps i)
         else scan depth ds sps (i + 1))
      else map_option (Pair Fallback) (vec_at sps 0))"
  by pat_completeness auto
termination
  by (relation "measure (\<lambda>(depth, ds, sps, i). length ds - 1 - i)") auto

declare scan.simps [simp del]

definition getSetPointAtDepth_traced ::
    "Parameters \<Rightarrow> SetPoints \<Rightarrow> double \<Rightarrow> bool \<Rightarrow> ((branch \<times> real) \<times> SetPoints) option" where
  "getSetPointAtDepth_traced g_parameters s depth boosted =
     (case sortSetPoints s of
        None \<Rightarrow> None
      | Some s' \<Rightarrow>
          map_option (\<lambda>r. (r, s'))
            (if m_depths s' = [] then Some (NoSetPoints, m_maxPpO2Diluent g_parameters)
             else if d_ge depth (Num (m_depths s' ! 0)) \<or> \<not> boosted
               then map_option (Pair CaseA) (vec_at (m_setPoints s') 0)
             else if d_lt depth (Num (m_depths s' ! (length (m_depths s') - 1)))
               then map_option (Pair CaseB) (vec_at (m_setPoints s') (length (m_depths s') - 1))
             else scan depth (m_depths s') (m_setPoints s') 0))"

text \<open>The value returned to the caller.\<close>

definition getSetPointAtDepth :: "Parameters \<Rightarrow> SetPoints \<Rightarrow> double \<Rightarrow> bool \<Rightarrow> real option" where
  "getSetPointAtDepth g_parameters s depth boosted =
     map_option (\<lambda>r. snd (fst r)) (getSetPointAtDepth_traced g_parameters s depth boosted)"

subsection \<open>addSetPoint, removeSetPoint, setToDefault\<close>

definition addSetPoint :: "real \<Rightarrow> real \<Rightarrow> SetPoints \<Rightarrow> SetPoints option" where
  "addSetPoint depth setpoint s =
     sortSetPoints \<lparr>m_depths = m_depths s @ [depth], m_setPoints = m_setPoints s @ [setpoint]\<rparr>"

definition removeSetPoint :: "nat \<Rightarrow> SetPoints \<Rightarrow> SetPoints option" where
  "removeSetPoint index s =
     (if index < length (m_depths s) then
        (case vec_erase (m_depths s) index of
           None \<Rightarrow> None
         | Some ds \<Rightarrow>
             (case vec_erase (m_setPoints s) index of
                None \<Rightarrow> None
              | Some sps \<Rightarrow> Some \<lparr>m_depths = ds, m_setPoints = sps\<rparr>))
      else Some s)"

definition setToDefault :: "SetPoints \<Rightarrow> SetPoints option" where
  "setToDefault s =
     Option.bind (addSetPoint 1000 1.3 s) (\<lambda>s1.
     Option.bind (addSetPoint 40 1.4 s1) (\<lambda>s2.
     Option.bind (addSetPoint 21 1.5 s2) (\<lambda>s3.
     addSetPoint 6 1.6 s3)))"


text \<open>
  The order that \<open>sortSetPoints\<close> establishes, read index by index: decreasing depth,
  and decreasing setpoint where two neighbours have the same depth.
\<close>

definition sorted_desc :: "SetPoints \<Rightarrow> bool" where
  "sorted_desc s =
     (\<forall>i. Suc i < length (m_depths s) \<longrightarrow>
        m_depths s ! i > m_depths s ! Suc i \<or>
        (m_depths s ! i = m_depths s ! Suc i \<and> m_setPoints s ! i \<ge> m_setPoints s ! Suc i))"

section \<open>Persistence files\<close>

text \<open>
  \<open>setpoints.dat\<close> and \<open>gaslist.dat\<close> are written with \<open>file.write\<close> of one fixed-width
  value after the other and read back with \<open>file.read\<close> in the same order. The byte
  layout of a value is not modelled: a file is the sequence of the values written, each
  tagged with the kind it was written as, and a read of a kind succeeds when the next
  value of the file has that kind. A read at the end of the file (or of another kind)
  fails, sets the stream's fail bit, leaves the destination variable as it was, and makes
  every later read fail; \<open>std::ifstream\<close> throws no exception for it. Vectors grow
  without limit in the model: a count too large for \<open>reserve\<close> or \<open>push_back\<close>, which
  would throw, and the exceptions of \<open>std::filesystem\<close> are not modelled.
\<close>

datatype GasType = BOTTOM | DECO | DILUENT

datatype GasStatus = ACTIVE | INACTIVE

datatype file_field =
    SizeField nat
  | DoubleField real
  | GasTypeField GasType
  | GasStatusField GasStatus

text \<open>
  What the loader can find under the file name: nothing, a file that exists but that
  \<open>std::ifstream\<close> cannot open, or a file with its content. \<open>writable\<close> says whether
  \<open>std::ofstream\<close> can open the file for writing.
\<close>

datatype file_state = Missing | Unopenable | Content "file_field list"

record disk =
  fstate :: file_state
  writable :: bool

record ifstream =
  rest :: "file_field list"
  failbit :: bool

fun as_size :: "file_field \<Rightarrow> nat option" where
  "as_size (SizeField n) = Some n"
| "as_size _ = None"

fun as_double :: "file_field \<Rightarrow> real option" where
  "as_double (DoubleField v) = Some v"
| "as_double _ = None"

fun as_gasType :: "file_field \<Rightarrow> GasType option" where
  "as_gasType (GasTypeField t) = Some t"
| "as_gasType _ = None"

fun as_gasStatus :: "file_field \<Rightarrow> GasStatus option" where
  "as_gasStatus (GasStatusField t) = Some t"
| "as_gasStatus _ = None"

text \<open>\<open>file.read(&x, sizeof(x))\<close>: the value read, or \<open>None\<close> when the read failed.\<close>

definition read :: "(file_field \<Rightarrow> 'a option) \<Rightarrow> ifstream \<Rightarrow> 'a option \<times> ifstream" where
  "read as f =
     (if failbit f then (None, f)
      else case rest f of
             [] \<Rightarrow> (None, f\<lparr>failbit := True\<rparr>)
           | x # r \<Rightarrow>
               (case as x of
                  Some v \<Rightarrow> (Some v, f\<lparr>rest := r\<rparr>)
                | None \<Rightarrow> (None, f\<lparr>failbit := True\<rparr>)))"

subsection \<open>saveSetPointsToFile, loadSetPointsFromFile\<close>

text \<open>The writing loop of \<open>saveSetPointsToFile\<close>, from index \<open>i\<close>, with \<open>n\<close> entries to go.\<close>

fun write_setpoints :: "SetPoints \<Rightarrow> nat \<Rightarrow> nat \<Rightarrow> file_field list option" where
  "write_setpoints s i 0 = Some []"
| "write_setpoints s i (Suc n) =
     (case vec_at (m_depths s) i of
        None \<Rightarrow> None
      | Some depth \<Rightarrow>
          (case vec_at (m_setPoints s) i of
             None \<Rightarrow> None
           | Some setpoint \<Rightarrow>
               map_option (\<lambda>fs. DoubleField depth # DoubleField setpoint # fs)
                 (write_setpoints s (Suc i) n)))"

definition saveSetPointsToFile :: "disk \<Rightarrow> SetPoints \<Rightarrow> (bool \<times> disk) option" where
  "saveSetPointsToFile d s =
     (if \<not> writable d then Some (False, d)
      else let count' = nbOfSetPoints s
           in case write_setpoints s 0 count' of
                None \<Rightarrow> None
              | Some fs \<Rightarrow> Some (True, d\<lparr>fstate := Content (SizeField count' # fs)\<rparr>))"

text \<open>
  The reading loop of \<open>loadSetPointsFromFile\<close>. \<open>depth\<close> and \<open>setpoint\<close> are declared
  without a value, so after a failed read the \<open>push_back\<close> uses an indeterminate value.
\<close>

fun read_setpoints :: "nat \<Rightarrow> ifstream \<Rightarrow> SetPoints \<Rightarrow> SetPoints option" where
  "read_setpoints 0 f s = Some s"
| "read_setpoints (Suc n) f s =
     (case read as_double f of
        (None, f1) \<Rightarrow> None
      | (Some depth, f1) \<Rightarrow>
          (case read as_double f1 of
             (None, f2) \<Rightarrow> None
           | (Some setpoint, f2) \<Rightarrow>
               read_setpoints n f2
                 (s\<lparr>m_depths := m_depths s @ [depth], m_setPoints := m_setPoints s @ [setpoint]\<rparr>)))"

text \<open>
  The result is the returned \<open>bool\<close>, the object and the disk. Both vectors are cleared
  before the file is looked at. \<open>count\<close> is declared without a value as well, so a failed
  read of it leaves the loop bound indeterminate.
\<close>

definition loadSetPointsFromFile :: "disk \<Rightarrow> SetPoints \<Rightarrow> (bool \<times> SetPoints \<times> disk) option" where
  "loadSetPointsFromFile d s =
     (let s0 = s\<lparr>m_depths := [], m_setPoints := []\<rparr>
      in case fstate d of
           Unopenable \<Rightarrow> Some (False, s0, d)
         | Content fs \<Rightarrow>
             (case read as_size \<lparr>rest = fs, failbit = False\<rparr> of
                (None, f1) \<Rightarrow> None
              | (Some count', f1) \<Rightarrow>
                  (case read_setpoints count' f1 s0 of
                     None \<Rightarrow> None
                   | Some s1 \<Rightarrow>
                       map_option (\<lambda>s2. (True, s2, d))
                         (if m_depths s1 = [] then setToDefault s1 else Some s1)))
         | Missing \<Rightarrow>
             (case setToDefault s0 of
                None \<Rightarrow> None
              | Some s1 \<Rightarrow>
                  (case saveSetPointsToFile d s1 of
                     None \<Rightarrow> None
                   | Some (saved, d') \<Rightarrow> Some (False, s1, d'))))"

text \<open>The constructor \<open>SetPoints::SetPoints()\<close>: both vectors start empty.\<close>

definition SetPoints_ctor :: "disk \<Rightarrow> (SetPoints \<times> disk) option" where
  "SetPoints_ctor d =
     (case loadSetPointsFromFile d \<lparr>m_depths = [], m_setPoints = []\<rparr> of
        None \<Rightarrow> None
      | Some (loaded, s, d') \<Rightarrow>
          (case (if \<not> loaded then setToDefault (s\<lparr>m_setPoints := []\<rparr>) else Some s) of
             None \<Rightarrow> None
           | Some s1 \<Rightarrow> map_option (\<lambda>s2. (s2, d')) (sortSetPoints s1)))"

section \<open>The class GasList (gaslist.cpp)\<close>

text \<open>
  Modelled from the spec: \<open>gas.hpp\<close> and \<open>enum.hpp\<close> are not among the sources. A gas is
  the value \<open>{o2%, he%, type, status}\<close> of the specification, with the member names that
  \<open>gaslist.cpp\<close> reads, and the constructor \<open>Gas(o2Percent, hePercent, gasType, gasStatus)\<close>
  is taken to store its four arguments in them.
\<close>

record Gas =
  m_o2Percent :: real
  m_hePercent :: real
  m_gasType :: GasType
  m_gasStatus :: GasStatus

definition Gas_ctor :: "real \<Rightarrow> real \<Rightarrow> GasType \<Rightarrow> GasStatus \<Rightarrow> Gas" where
  "Gas_ctor o2Percent hePercent gasType gasStatus =
     \<lparr>m_o2Percent = o2Percent, m_hePercent = hePercent,
      m_gasType = gasType, m_gasStatus = gasStatus\<rparr>"

record GasList =
  gases :: "Gas list"

definition addGas :: "real \<Rightarrow> real \<Rightarrow> GasType \<Rightarrow> GasStatus \<Rightarrow> GasList \<Rightarrow> GasList" where
  "addGas o2Percent hePercent gasType gasStatus gl =
     gl\<lparr>gases := gases gl @ [Gas_ctor o2Percent hePercent gasType gasStatus]\<rparr>"

text \<open>The range-\<open>for\<close> loop of \<open>saveGaslistToFile\<close>: four writes for each gas.\<close>

fun write_gases :: "Gas list \<Rightarrow> file_field list" where
  "write_gases [] = []"
| "write_gases (gas # gs) =
     DoubleField (m_o2Percent gas) # DoubleField (m_hePercent gas) #
     GasTypeField (m_gasType gas) # GasStatusField (m_gasStatus gas) # write_gases gs"

definition saveGaslistToFile :: "disk \<Rightarrow> GasList \<Rightarrow> bool \<times> disk" where
  "saveGaslistToFile d gl =
     (if \<not> writable d then (False, d)
      else (True, d\<lparr>fstate := Content (SizeField (length (gases gl)) # write_gases (gases gl))\<rparr>))"

text \<open>
  The reading loop of \<open>loadGaslistFromFile\<close>. The four variables are initialised to
  \<open>0.0\<close>, \<open>0.0\<close>, \<open>BOTTOM\<close> and \<open>ACTIVE\<close> in every iteration and keep that value when their
  read fails.
\<close>

fun read_gases :: "nat \<Rightarrow> ifstream \<Rightarrow> GasList \<Rightarrow> GasList" where
  "read_gases 0 f gl = gl"
| "read_gases (Suc n) f gl =
     (case read as_double f of (o2, f1) \<Rightarrow>
      case read as_double f1 of (he, f2) \<Rightarrow>
      case read as_gasType f2 of (ty, f3) \<Rightarrow>
      case read as_gasStatus f3 of (st, f4) \<Rightarrow>
        read_gases n f4
          (addGas (case o2 of None \<Rightarrow> 0 | Some v \<Rightarrow> v)
                  (case he of None \<Rightarrow> 0 | Some v \<Rightarrow> v)
                  (case ty of None \<Rightarrow> BOTTOM | Some v \<Rightarrow> v)
                  (case st of None \<Rightarrow> ACTIVE | Some v \<Rightarrow> v) gl))"

text \<open>
  The list is cleared only after the file has been opened. \<open>gasCount\<close> is initialised
  to \<open>0\<close> and keeps that value when its read fails.
\<close>

definition loadGaslistFromFile :: "disk \<Rightarrow> GasList \<Rightarrow> bool \<times> GasList \<times> disk" where
  "loadGaslistFromFile d gl =
     (case fstate d of
        Unopenable \<Rightarrow> (False, gl, d)
      | Content fs \<Rightarrow>
          (case read as_size \<lparr>rest = fs, failbit = False\<rparr> of (c, f1) \<Rightarrow>
             (True, read_gases (case c of None \<Rightarrow> 0 | Some n \<Rightarrow> n) f1 (gl\<lparr>gases := []\<rparr>), d))
      | Missing \<Rightarrow>
          (let gl1 = (if gases gl = [] then addGas 21 0 BOTTOM ACTIVE gl else gl)
           in case saveGaslistToFile d gl1 of (saved, d') \<Rightarrow> (False, gl1, d')))"

text \<open>The constructor \<open>GasList::GasList()\<close>: the vector starts empty.\<close>

definition GasList_ctor :: "disk \<Rightarrow> bool \<times> GasList \<times> disk" where
  "GasList_ctor d = loadGaslistFromFile d \<lparr>gases = []\<rparr>"

section \<open>The delete buttons of the dive plan window\<close>

text \<open>\<open>static_cast<int>\<close> of a \<open>size_t\<close>: the low 32 bits, read as a signed number.\<close>

definition static_cast_int :: "nat \<Rightarrow> int" where
  "static_cast_int n =
     (let m = int n mod 2 ^ 32 in if m < 2 ^ 31 then m else m - 2 ^ 32)"

text \<open>
  \<open>DivePlanWindow::deleteSetpoint\<close>, on the setpoints of the dive plan and the disk.
  The refresh of the tables and of the dive plan that follows does not add or remove
  setpoints and is left out.
\<close>

definition deleteSetpoint :: "int \<Rightarrow> SetPoints \<times> disk \<Rightarrow> (SetPoints \<times> disk) option" where
  "deleteSetpoint row sd =
     (case sd of (s, d) \<Rightarrow>
        if row < 0 \<or> row \<ge> static_cast_int (nbOfSetPoints s) then Some (s, d)
        else if nbOfSetPoints s > 1 then
          (case removeSetPoint (nat row) s of
             None \<Rightarrow> None
           | Some s1 \<Rightarrow>
               (case saveSetPointsToFile d s1 of
                  None \<Rightarrow> None
                | Some (saved, d1) \<Rightarrow> Some (s1, d1)))
        else Some (s, d))"

text \<open>A sequence of clicks on delete buttons of the setpoint table, one row each.\<close>

fun deleteSetpoints :: "int list \<Rightarrow> SetPoints \<times> disk \<Rightarrow> (SetPoints \<times> disk) option" where
  "deleteSetpoints [] sd = Some sd"
| "deleteSetpoints (row # rows) sd =
     (case deleteSetpoint row sd of None \<Rightarrow> None | Some sd' \<Rightarrow> deleteSetpoints rows sd')"

text \<open>
  Modelled from the spec: the class \<open>StopSteps\<close> (\<open>stop_steps.hpp\<close>) is not among the
  sources. A stop step is the pair \<open>{depth, time_min}\<close> of the specification under the
  member names the window reads, \<open>nbOfStopSteps()\<close> is taken to be the size of
  \<open>m_stopSteps\<close>, and \<open>removeStopStep\<close> is a parameter of \<open>deleteStopStep\<close>.
\<close>

record StopStep =
  m_depth :: real
  m_time :: real

record DivePlanWindow =
  m_isUpdating :: bool
  m_stopSteps :: "StopStep list"

definition nbOfStopSteps :: "DivePlanWindow \<Rightarrow> int" where
  "nbOfStopSteps w = int (length (m_stopSteps w))"

text \<open>
  \<open>DivePlanWindow::deleteStopStep\<close>. The rebuild of the dive plan that follows the
  removal reads the stop steps and is left out.
\<close>

definition deleteStopStep ::
    "(int \<Rightarrow> StopStep list \<Rightarrow> StopStep list) \<Rightarrow> int \<Rightarrow> DivePlanWindow \<Rightarrow> DivePlanWindow" where
  "deleteStopStep removeStopStep row w =
     (if m_isUpdating w then w
      else let w1 = w\<lparr>m_isUpdating := True\<rparr>;
               w2 = (if nbOfStopSteps w1 > 1
                     then w1\<lparr>m_stopSteps := removeStopStep row (m_stopSteps w1)\<rparr>
                     else w1)
           in w2\<lparr>m_isUpdating := False\<rparr>)"


section \<open>Sorting\<close>

lemma make_pairs_zip: "length ds \<le> length sps \<Longrightarrow> make_pairs ds sps = Some (zip ds sps)"
  by (induction ds sps rule: make_pairs.induct) auto

lemma make_pairs_None: "length sps < length ds \<Longrightarrow> make_pairs ds sps = None"
  by (induction ds sps rule: make_pairs.induct) auto

lemma mset_insert_sorted: "mset (insert_sorted x ys) = add_mset x (mset ys)"
  by (induction ys) auto

lemma mset_std_sort: "mset (std_sort xs) = mset xs"
  by (induction xs) (auto simp: std_sort_def mset_insert_sorted)

lemma set_insert_sorted: "set (insert_sorted x ys) = insert x (set ys)"
  by (induction ys) auto

lemma length_std_sort: "length (std_sort xs) = length xs"
  using mset_std_sort [of xs] by (metis size_mset)

lemma set_std_sort: "set (std_sort xs) = set xs"
  using mset_std_sort [of xs] by (metis set_mset_mset)

lemma not_before_trans:
  "\<not> sort_before b a \<Longrightarrow> \<not> sort_before c b \<Longrightarrow> \<not> sort_before c a"
  by (auto simp: sort_before_def split: if_splits)

lemma sort_before_total: "sort_before a b \<or> sort_before b a \<or> a = b"
  by (auto simp: sort_before_def prod_eq_iff)

lemma sort_before_asym: "sort_before a b \<Longrightarrow> \<not> sort_before b a"
  by (auto simp: sort_before_def split: if_splits)

lemma sorted_insert_sorted:
  "sorted_wrt (\<lambda>a b. \<not> sort_before b a) ys \<Longrightarrow>
   sorted_wrt (\<lambda>a b. \<not> sort_before b a) (insert_sorted x ys)"
proof (induction ys)
  case Nil
  then show ?case by simp
next
  case (Cons y ys)
  show ?case
  proof (cases "sort_before y x")
    case True
    then have "\<not> sort_before x y" by (rule sort_before_asym)
    with True Cons show ?thesis by (auto simp: set_insert_sorted)
  next
    case False
    have "\<forall>z\<in>set ys. \<not> sort_before z x"
    proof
      fix z assume "z \<in> set ys"
      with Cons.prems have "\<not> sort_before z y" by simp
      with False show "\<not> sort_before z x" by (rule not_before_trans)
    qed
    with False Cons.prems show ?thesis by simp
  qed
qed

lemma sorted_std_sort: "sorted_wrt (\<lambda>a b. \<not> sort_before b a) (std_sort xs)"
  by (induction xs) (auto simp: std_sort_def sorted_insert_sorted)

lemma std_sort_unique:
  "mset ys = mset xs \<Longrightarrow> sorted_wrt (\<lambda>a b. \<not> sort_before b a) ys \<Longrightarrow> ys = std_sort xs"
proof -
  have uniq: "sorted_wrt (\<lambda>a b. \<not> sort_before b a) us \<Longrightarrow>
        sorted_wrt (\<lambda>a b. \<not> sort_before b a) vs \<Longrightarrow> mset us = mset vs \<Longrightarrow> us = vs" for us vs
  proof (induction us arbitrary: vs)
    case Nil
    then show ?case by simp
  next
    case (Cons u us)
    then obtain v vs' where vs: "vs = v # vs'" by (cases vs) auto
    have "u \<in> set vs" using Cons.prems(3) by (metis list.set_intros(1) set_mset_mset)
    then have 1: "\<not> sort_before u v" using Cons.prems(2) vs
      by (auto simp: sort_before_def)
    have "v \<in> set (u # us)" using Cons.prems(3) vs by (metis list.set_intros(1) set_mset_mset)
    then have 2: "\<not> sort_before v u" using Cons.prems(1)
      by (auto simp: sort_before_def)
    from 1 2 have "u = v" using sort_before_total by blast
    with Cons vs show ?case by auto
  qed
  assume "mset ys = mset xs" "sorted_wrt (\<lambda>a b. \<not> sort_before b a) ys"
  then show ?thesis using uniq [of ys "std_sort xs"] by (simp add: mset_std_sort sorted_std_sort)
qed

lemma sortSetPoints_wf:
  "well_formed s \<Longrightarrow> sortSetPoints s =
     Some \<lparr>m_depths = map fst (std_sort (pairs s)), m_setPoints = map snd (std_sort (pairs s))\<rparr>"
  by (simp add: sortSetPoints_def well_formed_def pairs_def make_pairs_zip Let_def)

lemma sortSetPoints_undefined:
  "length (m_setPoints s) < length (m_depths s) \<Longrightarrow> sortSetPoints s = None"
  by (simp add: sortSetPoints_def make_pairs_None)

lemma pairs_sorted:
  "pairs \<lparr>m_depths = map fst ps, m_setPoints = map snd ps\<rparr> = ps"
  by (simp add: pairs_def zip_map_fst_snd)

lemma sorted_desc_std_sort:
  "sorted_desc \<lparr>m_depths = map fst (std_sort ps), m_setPoints = map snd (std_sort ps)\<rparr>"
proof -
  have "\<not> sort_before (std_sort ps ! Suc i) (std_sort ps ! i)" if "Suc i < length (std_sort ps)" for i
    using sorted_std_sort [of ps] that by (simp add: sorted_wrt_iff_nth_less)
  then show ?thesis
    by (fastforce simp: sorted_desc_def sort_before_def split: if_splits)
qed


lemma sortSetPoints_props:
  assumes "well_formed s"
  obtains s' where "sortSetPoints s = Some s'" "well_formed s'" "sorted_desc s'"
    "pairs s' = std_sort (pairs s)" "length (m_depths s') = length (m_depths s)"
proof -
  let ?s = "\<lparr>m_depths = map fst (std_sort (pairs s)), m_setPoints = map snd (std_sort (pairs s))\<rparr>"
  have "sortSetPoints s = Some ?s" using assms by (rule sortSetPoints_wf)
  moreover have "well_formed ?s" by (simp add: well_formed_def)
  moreover have "sorted_desc ?s" by (rule sorted_desc_std_sort)
  moreover have "pairs ?s = std_sort (pairs s)" by (rule pairs_sorted)
  moreover have "length (m_depths ?s) = length (m_depths s)"
    using assms by (simp add: length_std_sort pairs_def well_formed_def)
  ultimately show ?thesis using that by blast
qed

section \<open>Properties of getSetPointAtDepth\<close>

lemma scan_finds:
  assumes "k + 1 < length ds" "k < length sps" "depth < ds ! k" "depth \<ge> ds ! (k + 1)"
    and "\<forall>j. i \<le> j \<and> j < k \<longrightarrow> \<not> (depth < ds ! j \<and> depth \<ge> ds ! (j + 1))"
    and "i \<le> k"
  shows "scan (Num depth) ds sps i = Some (CaseC k, sps ! k)"
  using assms
proof (induction "k - i" arbitrary: i)
  case 0
  then have "i = k" by simp
  with "0.prems" show ?case by (simp add: scan.simps [of "Num depth" ds sps k] vec_at_def)
next
  case (Suc n)
  then have lt: "i < k" by simp
  with Suc.prems have "\<not> (depth < ds ! i \<and> depth \<ge> ds ! (i + 1))" by simp
  moreover have "i < length ds - 1" using lt Suc.prems(1) by simp
  moreover have "scan (Num depth) ds sps (i + 1) = Some (CaseC k, sps ! k)"
    using Suc.hyps(2) Suc.prems lt by (intro Suc.hyps(1)) auto
  ultimately show ?case by (auto simp: scan.simps [of "Num depth" ds sps i])
qed

lemma scan_NaN: "scan NaN ds sps i = map_option (Pair Fallback) (vec_at sps 0)"
proof (induction "length ds - 1 - i" arbitrary: i)
  case 0
  then have "\<not> i < length ds - 1" by simp
  then show ?case by (simp add: scan.simps [of NaN ds sps i])
next
  case (Suc n)
  then have "scan NaN ds sps (i + 1) = map_option (Pair Fallback) (vec_at sps 0)"
    by (intro Suc.hyps(1)) auto
  then show ?case by (simp add: scan.simps [of NaN ds sps i])
qed

lemma interval_exists:
  fixes ds :: "real list"
  assumes "ds \<noteq> []" "depth < ds ! 0" "depth \<ge> ds ! (length ds - 1)"
  obtains k where "k + 1 < length ds" "depth < ds ! k" "depth \<ge> ds ! (k + 1)"
    "\<forall>j<k. \<not> (depth < ds ! j \<and> depth \<ge> ds ! (j + 1))"
proof -
  define P where "P k \<longleftrightarrow> k + 1 < length ds \<and> depth < ds ! k \<and> depth \<ge> ds ! (k + 1)" for k
  have n: "length ds - 1 \<noteq> 0" using assms(2,3) by (metis not_less)
  define m where "m = (LEAST m. depth \<ge> ds ! Suc m)"
  have ex: "depth \<ge> ds ! Suc (length ds - 2)"
    using assms(3) n by (simp add: numeral_2_eq_2 Suc_diff_Suc)
  have m1: "depth \<ge> ds ! Suc m" unfolding m_def using ex by (rule LeastI)
  have m2: "m \<le> length ds - 2" unfolding m_def using ex by (rule Least_le)
  have m3: "depth < ds ! m"
  proof (cases m)
    case 0
    then show ?thesis using assms(2) by simp
  next
    case (Suc m')
    have "\<not> depth \<ge> ds ! Suc m'"
      using not_less_Least [of m' "\<lambda>m. depth \<ge> ds ! Suc m"] Suc by (simp add: m_def)
    then show ?thesis using Suc by simp
  qed
  have "P m" using m1 m2 m3 n by (simp add: P_def)
  define k where "k = (LEAST k. P k)"
  have "P k" unfolding k_def using \<open>P m\<close> by (rule LeastI)
  moreover have "\<not> P j" if "j < k" for j
    using that unfolding k_def by (rule not_less_Least)
  ultimately show ?thesis using that [of k] unfolding P_def by (metis less_trans add_less_cancel_right)
qed

lemma traced_sorted:
  assumes "sortSetPoints s = Some s'"
  shows "getSetPointAtDepth_traced g s depth boosted =
     map_option (\<lambda>r. (r, s'))
       (if m_depths s' = [] then Some (NoSetPoints, m_maxPpO2Diluent g)
        else if d_ge depth (Num (m_depths s' ! 0)) \<or> \<not> boosted
          then map_option (Pair CaseA) (vec_at (m_setPoints s') 0)
        else if d_lt depth (Num (m_depths s' ! (length (m_depths s') - 1)))
          then map_option (Pair CaseB) (vec_at (m_setPoints s') (length (m_depths s') - 1))
        else scan depth (m_depths s') (m_setPoints s') 0)"
  using assms by (simp add: getSetPointAtDepth_traced_def)

lemma traced_not_boosted:
  assumes "sortSetPoints s = Some s'" "well_formed s'" "m_depths s' \<noteq> []"
  shows "getSetPointAtDepth_traced g s depth False = Some ((CaseA, m_setPoints s' ! 0), s')"
  using assms by (auto simp: traced_sorted [OF assms(1)] vec_at_def well_formed_def)

lemma traced_NaN_boosted:
  assumes "sortSetPoints s = Some s'" "well_formed s'" "m_depths s' \<noteq> []"
  shows "getSetPointAtDepth_traced g s NaN True = Some ((Fallback, m_setPoints s' ! 0), s')"
  using assms by (auto simp: traced_sorted [OF assms(1)] scan_NaN vec_at_def well_formed_def)

lemma traced_cases:
  assumes "well_formed s" "m_depths s \<noteq> []"
  obtains s' where "sortSetPoints s = Some s'" "well_formed s'" "sorted_desc s'" "m_depths s' \<noteq> []"
    "pairs s' = std_sort (pairs s)"
    "depth \<ge> m_depths s' ! 0 \<or> \<not> boosted \<Longrightarrow>
       getSetPointAtDepth_traced g s (Num depth) boosted = Some ((CaseA, m_setPoints s' ! 0), s')"
    "depth < m_depths s' ! 0 \<Longrightarrow> boosted \<Longrightarrow> depth < m_depths s' ! (length (m_depths s') - 1) \<Longrightarrow>
       getSetPointAtDepth_traced g s (Num depth) boosted =
         Some ((CaseB, m_setPoints s' ! (length (m_depths s') - 1)), s')"
    "depth < m_depths s' ! 0 \<Longrightarrow> boosted \<Longrightarrow> depth \<ge> m_depths s' ! (length (m_depths s') - 1) \<Longrightarrow>
       \<exists>k. k + 1 < length (m_depths s') \<and> depth < m_depths s' ! k \<and> depth \<ge> m_depths s' ! (k + 1) \<and>
           (\<forall>j<k. \<not> (depth < m_depths s' ! j \<and> depth \<ge> m_depths s' ! (j + 1))) \<and>
           getSetPointAtDepth_traced g s (Num depth) boosted = Some ((CaseC k, m_setPoints s' ! k), s')"
proof -
  from assms(1) obtain s' where s': "sortSetPoints s = Some s'" "well_formed s'" "sorted_desc s'"
    "pairs s' = std_sort (pairs s)" "length (m_depths s') = length (m_depths s)"
    by (rule sortSetPoints_props)
  have ne: "m_depths s' \<noteq> []" using s'(5) assms(2) by auto
  have len: "length (m_setPoints s') = length (m_depths s')" using s'(2) by (simp add: well_formed_def)
  have pos: "0 < length (m_depths s')" using ne by simp
  have A: "getSetPointAtDepth_traced g s (Num depth) boosted = Some ((CaseA, m_setPoints s' ! 0), s')"
    if "depth \<ge> m_depths s' ! 0 \<or> \<not> boosted"
    using that ne len pos by (auto simp: traced_sorted [OF s'(1)] vec_at_def)
  have B: "getSetPointAtDepth_traced g s (Num depth) boosted =
         Some ((CaseB, m_setPoints s' ! (length (m_depths s') - 1)), s')"
    if "depth < m_depths s' ! 0" "boosted" "depth < m_depths s' ! (length (m_depths s') - 1)"
    using that ne len pos by (auto simp: traced_sorted [OF s'(1)] vec_at_def)
  have C: "\<exists>k. k + 1 < length (m_depths s') \<and> depth < m_depths s' ! k \<and> depth \<ge> m_depths s' ! (k + 1) \<and>
           (\<forall>j<k. \<not> (depth < m_depths s' ! j \<and> depth \<ge> m_depths s' ! (j + 1))) \<and>
           getSetPointAtDepth_traced g s (Num depth) boosted = Some ((CaseC k, m_setPoints s' ! k), s')"
    if c: "depth < m_depths s' ! 0" "boosted" "depth \<ge> m_depths s' ! (length (m_depths s') - 1)"
  proof -
    from ne c(1) c(3) obtain k where k: "k + 1 < length (m_depths s')" "depth < m_depths s' ! k"
      "depth \<ge> m_depths s' ! (k + 1)"
      "\<forall>j<k. \<not> (depth < m_depths s' ! j \<and> depth \<ge> m_depths s' ! (j + 1))"
      by (rule interval_exists)
    have "scan (Num depth) (m_depths s') (m_setPoints s') 0 = Some (CaseC k, m_setPoints s' ! k)"
      using k len by (intro scan_finds) auto
    then have "getSetPointAtDepth_traced g s (Num depth) boosted = Some ((CaseC k, m_setPoints s' ! k), s')"
      using c ne by (auto simp: traced_sorted [OF s'(1)])
    with k show ?thesis by blast
  qed
  show ?thesis
    apply (rule that [OF s'(1) s'(2) s'(3) ne s'(4)])
    subgoal by (rule A)
    subgoal by (rule B)
    subgoal by (rule C)
    done
qed


lemma depths_desc:
  assumes "well_formed s" "sortSetPoints s = Some s'" "i \<le> j" "j < length (m_depths s')"
  shows "m_depths s' ! j \<le> m_depths s' ! i"
proof (cases "i = j")
  case True
  then show ?thesis by simp
next
  case False
  let ?ps = "std_sort (pairs s)"
  have s': "s' = \<lparr>m_depths = map fst ?ps, m_setPoints = map snd ?ps\<rparr>"
    using sortSetPoints_wf [OF assms(1)] assms(2) by simp
  have j: "j < length ?ps" using assms(4) s' by simp
  have "i < j" using False assms(3) by simp
  then have "\<not> sort_before (?ps ! j) (?ps ! i)"
    using sorted_std_sort [of "pairs s"] j by (simp add: sorted_wrt_iff_nth_less)
  then have "fst (?ps ! j) \<le> fst (?ps ! i)"
    by (auto simp: sort_before_def split: if_splits)
  then show ?thesis using s' j \<open>i < j\<close> by simp
qed

lemma pairs_not_before:
  assumes "well_formed s" "sortSetPoints s = Some s'" "i \<le> j" "j < length (m_depths s')"
  shows "\<not> sort_before (m_depths s' ! j, m_setPoints s' ! j) (m_depths s' ! i, m_setPoints s' ! i)"
proof (cases "i = j")
  case True
  then show ?thesis by (simp add: sort_before_def)
next
  case False
  let ?ps = "std_sort (pairs s)"
  have s': "s' = \<lparr>m_depths = map fst ?ps, m_setPoints = map snd ?ps\<rparr>"
    using sortSetPoints_wf [OF assms(1)] assms(2) by simp
  have j: "j < length ?ps" using assms(4) s' by simp
  have "i < j" using False assms(3) by simp
  then have "\<not> sort_before (?ps ! j) (?ps ! i)"
    using sorted_std_sort [of "pairs s"] j by (simp add: sorted_wrt_iff_nth_less)
  then show ?thesis using s' j \<open>i < j\<close> by simp
qed

lemma sortSetPoints_idem:
  assumes "well_formed s" "sorted_desc s"
  shows "sortSetPoints s = Some s"
proof -
  have tr: "transp (\<lambda>a b. \<not> sort_before b a)"
    by (rule transpI) (rule not_before_trans)
  have "\<not> sort_before (pairs s ! Suc i) (pairs s ! i)" if "Suc i < length (pairs s)" for i
    using that assms by (auto simp: pairs_def well_formed_def sorted_desc_def sort_before_def)
  then have "sorted_wrt (\<lambda>a b. \<not> sort_before b a) (pairs s)"
    by (simp add: sorted_wrt_iff_nth_Suc_transp [OF tr])
  then have "std_sort (pairs s) = pairs s"
    using std_sort_unique [of "pairs s" "pairs s"] by simp
  then show ?thesis
    using assms(1) by (simp add: sortSetPoints_wf) (simp add: pairs_def well_formed_def)
qed

text \<open>
  Claim C1. For every setpoint list with at least one entry and every depth (NaN
  included), \<open>getSetPointAtDepth(depth, false)\<close> returns \<open>m_setPoints[0]\<close> of the list as
  \<open>sortSetPoints\<close> leaves it, and that entry is an entry of the list whose depth no other
  entry exceeds: the deepest one (the one with the highest setpoint, should several entries
  have that depth).
\<close>

theorem getSetPointAtDepth_not_boosted:
  assumes "well_formed s" "m_depths s \<noteq> []"
  shows "\<exists>s'. sortSetPoints s = Some s' \<and>
           getSetPointAtDepth g_parameters s depth False = Some (m_setPoints s' ! 0) \<and>
           (m_depths s' ! 0, m_setPoints s' ! 0) \<in> set (pairs s) \<and>
           (\<forall>e\<in>set (pairs s). fst e \<le> m_depths s' ! 0 \<and>
              (fst e = m_depths s' ! 0 \<longrightarrow> snd e \<le> m_setPoints s' ! 0))"
proof -
  from assms(1) obtain s' where s0: "sortSetPoints s = Some s'" "well_formed s'" "sorted_desc s'"
    "pairs s' = std_sort (pairs s)" "length (m_depths s') = length (m_depths s)"
    by (rule sortSetPoints_props)
  have ne: "m_depths s' \<noteq> []" using s0(5) assms(2) by auto
  note s' = s0(1) s0(2) ne s0(4)
  have A: "getSetPointAtDepth_traced g_parameters s depth False = Some ((CaseA, m_setPoints s' ! 0), s')"
    using s0(1) s0(2) ne by (rule traced_not_boosted)
  have r: "getSetPointAtDepth g_parameters s depth False = Some (m_setPoints s' ! 0)"
    using A by (simp add: getSetPointAtDepth_def)
  have len: "length (m_setPoints s') = length (m_depths s')" using s'(2) by (simp add: well_formed_def)
  have pos: "0 < length (m_depths s')" using s'(3) by simp
  have "(m_depths s' ! 0, m_setPoints s' ! 0) = pairs s' ! 0"
    using len pos by (simp add: pairs_def)
  moreover have "0 < length (pairs s')" using len pos by (simp add: pairs_def)
  ultimately have "(m_depths s' ! 0, m_setPoints s' ! 0) \<in> set (pairs s')"
    by (metis nth_mem)
  then have mem: "(m_depths s' ! 0, m_setPoints s' ! 0) \<in> set (pairs s)"
    by (simp add: s'(4) set_std_sort)
  have "fst e \<le> m_depths s' ! 0 \<and> (fst e = m_depths s' ! 0 \<longrightarrow> snd e \<le> m_setPoints s' ! 0)"
    if "e \<in> set (pairs s)" for e
  proof -
    from that have "e \<in> set (pairs s')" by (simp add: s'(4) set_std_sort)
    then obtain j where j: "j < length (pairs s')" "e = pairs s' ! j"
      by (metis in_set_conv_nth)
    then have jl: "j < length (m_depths s')" by (simp add: pairs_def)
    have e: "e = (m_depths s' ! j, m_setPoints s' ! j)" using j jl len by (simp add: pairs_def)
    have "\<not> sort_before (m_depths s' ! j, m_setPoints s' ! j) (m_depths s' ! 0, m_setPoints s' ! 0)"
      using assms(1) s'(1) _ jl by (rule pairs_not_before) simp
    then show ?thesis unfolding e by (auto simp: sort_before_def split: if_splits)
  qed
  with r mem s'(1) show ?thesis by blast
qed

theorem getSetPointAtDepth_not_boosted_witness:
  "well_formed \<lparr>m_depths = [6, 40, 21], m_setPoints = [1.6, 1.4, 1.5]\<rparr> \<and>
   m_depths \<lparr>m_depths = [6, 40, 21], m_setPoints = [1.6, 1.4, 1.5]\<rparr> \<noteq> [] \<and>
   sortSetPoints \<lparr>m_depths = [6, 40, 21], m_setPoints = [1.6, 1.4, 1.5]\<rparr> =
     Some \<lparr>m_depths = [40, 21, 6], m_setPoints = [1.4, 1.5, 1.6]\<rparr> \<and>
   getSetPointAtDepth \<lparr>m_maxPpO2Diluent = 0.7\<rparr>
     \<lparr>m_depths = [6, 40, 21], m_setPoints = [1.6, 1.4, 1.5]\<rparr> (Num 3) False = Some 1.4 \<and>
   getSetPointAtDepth \<lparr>m_maxPpO2Diluent = 0.7\<rparr>
     \<lparr>m_depths = [6, 40, 21], m_setPoints = [1.6, 1.4, 1.5]\<rparr> NaN False = Some 1.4"
proof -
  let ?s = "\<lparr>m_depths = [6, 40, 21], m_setPoints = [1.6, 1.4, 1.5]\<rparr>"
  let ?g = "\<lparr>m_maxPpO2Diluent = 0.7\<rparr>"
  have h1: "well_formed ?s" by (simp add: well_formed_def)
  have h2: "m_depths ?s \<noteq> []" by simp
  have h3: "sortSetPoints ?s = Some \<lparr>m_depths = [40, 21, 6], m_setPoints = [1.4, 1.5, 1.6]\<rparr>"
    by (simp add: sortSetPoints_def std_sort_def sort_before_def)
  have "getSetPointAtDepth ?g ?s depth False = Some 1.4" for depth
  proof -
    from getSetPointAtDepth_not_boosted [OF h1 h2, of ?g depth]
    obtain s' where a: "sortSetPoints ?s = Some s'"
      and b: "getSetPointAtDepth ?g ?s depth False = Some (m_setPoints s' ! 0)"
      by blast
    from a h3 have "s' = \<lparr>m_depths = [40, 21, 6], m_setPoints = [1.4, 1.5, 1.6]\<rparr>" by simp
    with b show ?thesis by simp
  qed
  with h1 h2 h3 show ?thesis by blast
qed

text \<open>
  Claim C2. When the setpoint list is empty, \<open>getSetPointAtDepth\<close> returns
  \<open>g_parameters.m_maxPpO2Diluent\<close> for every depth and either value of \<open>boosted\<close>.
\<close>

theorem getSetPointAtDepth_empty:
  "m_depths s = [] \<Longrightarrow>
   getSetPointAtDepth g_parameters s depth boosted = Some (m_maxPpO2Diluent g_parameters)"
  by (simp add: getSetPointAtDepth_def getSetPointAtDepth_traced_def sortSetPoints_def std_sort_def)

theorem getSetPointAtDepth_empty_witness:
  "m_depths \<lparr>m_depths = [], m_setPoints = []\<rparr> = [] \<and>
   getSetPointAtDepth \<lparr>m_maxPpO2Diluent = 0.7\<rparr> \<lparr>m_depths = [], m_setPoints = []\<rparr> (Num 30) True = Some 0.7 \<and>
   getSetPointAtDepth \<lparr>m_maxPpO2Diluent = 0.7\<rparr> \<lparr>m_depths = [], m_setPoints = []\<rparr> (Num 30) False = Some 0.7"
  using getSetPointAtDepth_empty [of "\<lparr>m_depths = [], m_setPoints = []\<rparr>" "\<lparr>m_maxPpO2Diluent = 0.7\<rparr>" "Num 30" True]
    getSetPointAtDepth_empty [of "\<lparr>m_depths = [], m_setPoints = []\<rparr>" "\<lparr>m_maxPpO2Diluent = 0.7\<rparr>" "Num 30" False]
  by simp

lemma getSetPointAtDepth_boosted_num:
  assumes "well_formed s" "m_depths s \<noteq> []" "sortSetPoints s = Some s'"
  shows "(depth < m_depths s' ! 0 \<and> depth \<ge> m_depths s' ! (length (m_depths s') - 1) \<longrightarrow>
           (\<exists>i. i + 1 < length (m_depths s') \<and>
                depth < m_depths s' ! i \<and> depth \<ge> m_depths s' ! (i + 1) \<and>
                (\<forall>j<i. \<not> (depth < m_depths s' ! j \<and> depth \<ge> m_depths s' ! (j + 1))) \<and>
                getSetPointAtDepth g_parameters s (Num depth) True = Some (m_setPoints s' ! i))) \<and>
         (depth < m_depths s' ! (length (m_depths s') - 1) \<longrightarrow>
            getSetPointAtDepth g_parameters s (Num depth) True =
              Some (m_setPoints s' ! (length (m_depths s') - 1)))"
proof -
  from assms(1,2) obtain t where t: "sortSetPoints s = Some t" "m_depths t \<noteq> []"
    and B: "depth < m_depths t ! 0 \<Longrightarrow> True \<Longrightarrow> depth < m_depths t ! (length (m_depths t) - 1) \<Longrightarrow>
       getSetPointAtDepth_traced g_parameters s (Num depth) True =
         Some ((CaseB, m_setPoints t ! (length (m_depths t) - 1)), t)"
    and C: "depth < m_depths t ! 0 \<Longrightarrow> True \<Longrightarrow> depth \<ge> m_depths t ! (length (m_depths t) - 1) \<Longrightarrow>
       \<exists>k. k + 1 < length (m_depths t) \<and> depth < m_depths t ! k \<and> depth \<ge> m_depths t ! (k + 1) \<and>
           (\<forall>j<k. \<not> (depth < m_depths t ! j \<and> depth \<ge> m_depths t ! (j + 1))) \<and>
           getSetPointAtDepth_traced g_parameters s (Num depth) True = Some ((CaseC k, m_setPoints t ! k), t)"
    by (rule traced_cases [where depth = depth and boosted = True and g = g_parameters]) blast
  have ts: "t = s'" using t(1) assms(3) by simp
  have first: "m_depths s' ! (length (m_depths s') - 1) \<le> m_depths s' ! 0"
    using assms(1,3) _ _ by (rule depths_desc) (use t(2) ts in auto)
  have 1: "\<exists>i. i + 1 < length (m_depths s') \<and>
                depth < m_depths s' ! i \<and> depth \<ge> m_depths s' ! (i + 1) \<and>
                (\<forall>j<i. \<not> (depth < m_depths s' ! j \<and> depth \<ge> m_depths s' ! (j + 1))) \<and>
                getSetPointAtDepth g_parameters s (Num depth) True = Some (m_setPoints s' ! i)"
    if "depth < m_depths s' ! 0" "depth \<ge> m_depths s' ! (length (m_depths s') - 1)"
  proof -
    from C that ts obtain k where k: "k + 1 < length (m_depths s')" "depth < m_depths s' ! k"
      "depth \<ge> m_depths s' ! (k + 1)"
      "\<forall>j<k. \<not> (depth < m_depths s' ! j \<and> depth \<ge> m_depths s' ! (j + 1))"
      "getSetPointAtDepth_traced g_parameters s (Num depth) True = Some ((CaseC k, m_setPoints s' ! k), s')"
      by blast
    from k(5) have "getSetPointAtDepth g_parameters s (Num depth) True = Some (m_setPoints s' ! k)"
      by (simp add: getSetPointAtDepth_def)
    with k(1-4) show ?thesis by blast
  qed
  have 2: "getSetPointAtDepth g_parameters s (Num depth) True =
              Some (m_setPoints s' ! (length (m_depths s') - 1))"
    if "depth < m_depths s' ! (length (m_depths s') - 1)"
  proof -
    have "depth < m_depths s' ! 0" using that first by simp
    with B that ts have "getSetPointAtDepth_traced g_parameters s (Num depth) True =
         Some ((CaseB, m_setPoints s' ! (length (m_depths s') - 1)), s')" by blast
    then show ?thesis by (simp add: getSetPointAtDepth_def)
  qed
  show ?thesis using 1 2 by blast
qed

text \<open>
  Claim C3. Let the setpoint list be non-empty and \<open>s'\<close> be the list as \<open>sortSetPoints\<close>
  leaves it (the list itself when it is sorted already, by \<open>sortSetPoints_idem\<close>). With
  \<open>boosted = true\<close>: a depth strictly less than the deepest entry's depth and not less
  than the shallowest entry's depth gets \<open>m_setPoints[i]\<close> for the first index \<open>i\<close> with
  \<open>depth < m_depths[i]\<close> and \<open>depth \<ge> m_depths[i + 1]\<close>, and such an index exists; a
  depth strictly less than the shallowest entry's depth gets the shallowest entry's
  setpoint. The comparisons are those of doubles, so no NaN depth is in either range.
\<close>

theorem getSetPointAtDepth_boosted:
  assumes "well_formed s" "m_depths s \<noteq> []" "sortSetPoints s = Some s'"
  shows "(d_lt depth (Num (m_depths s' ! 0)) \<and>
          d_ge depth (Num (m_depths s' ! (length (m_depths s') - 1))) \<longrightarrow>
           (\<exists>i. i + 1 < length (m_depths s') \<and>
                d_lt depth (Num (m_depths s' ! i)) \<and> d_ge depth (Num (m_depths s' ! (i + 1))) \<and>
                (\<forall>j<i. \<not> (d_lt depth (Num (m_depths s' ! j)) \<and>
                          d_ge depth (Num (m_depths s' ! (j + 1))))) \<and>
                getSetPointAtDepth g_parameters s depth True = Some (m_setPoints s' ! i))) \<and>
         (d_lt depth (Num (m_depths s' ! (length (m_depths s') - 1))) \<longrightarrow>
            getSetPointAtDepth g_parameters s depth True =
              Some (m_setPoints s' ! (length (m_depths s') - 1)))"
proof (cases depth)
  case (Num r)
  show ?thesis
    unfolding Num using getSetPointAtDepth_boosted_num [OF assms, of r g_parameters] by simp
next
  case NaN
  then show ?thesis by simp
qed

theorem getSetPointAtDepth_boosted_witness:
  "well_formed \<lparr>m_depths = [6, 40, 21], m_setPoints = [1.6, 1.4, 1.5]\<rparr> \<and>
   m_depths \<lparr>m_depths = [6, 40, 21], m_setPoints = [1.6, 1.4, 1.5]\<rparr> \<noteq> [] \<and>
   sortSetPoints \<lparr>m_depths = [6, 40, 21], m_setPoints = [1.6, 1.4, 1.5]\<rparr> =
     Some \<lparr>m_depths = [40, 21, 6], m_setPoints = [1.4, 1.5, 1.6]\<rparr> \<and>
   d_lt (Num 3) (Num 6) \<and>
   getSetPointAtDepth \<lparr>m_maxPpO2Diluent = 0.7\<rparr>
     \<lparr>m_depths = [6, 40, 21], m_setPoints = [1.6, 1.4, 1.5]\<rparr> (Num 3) True = Some 1.6 \<and>
   d_lt (Num 10) (Num 40) \<and> d_ge (Num 10) (Num 6) \<and>
   getSetPointAtDepth \<lparr>m_maxPpO2Diluent = 0.7\<rparr>
     \<lparr>m_depths = [6, 40, 21], m_setPoints = [1.6, 1.4, 1.5]\<rparr> (Num 10) True = Some 1.5"
proof -
  let ?s = "\<lparr>m_depths = [6, 40, 21], m_setPoints = [1.6, 1.4, 1.5]\<rparr>"
  let ?s' = "\<lparr>m_depths = [40, 21, 6], m_setPoints = [1.4, 1.5, 1.6]\<rparr>"
  let ?g = "\<lparr>m_maxPpO2Diluent = 0.7\<rparr>"
  have h1: "well_formed ?s" by (simp add: well_formed_def)
  have h2: "m_depths ?s \<noteq> []" by simp
  have h3: "sortSetPoints ?s = Some ?s'"
    by (simp add: sortSetPoints_def std_sort_def sort_before_def)
  have a: "getSetPointAtDepth ?g ?s (Num 3) True = Some 1.6"
    using getSetPointAtDepth_boosted [OF h1 h2 h3, of "Num 3" ?g] by simp
  have prem: "d_lt (Num 10) (Num (m_depths ?s' ! 0)) \<and>
      d_ge (Num 10) (Num (m_depths ?s' ! (length (m_depths ?s') - 1)))"
    by simp
  from getSetPointAtDepth_boosted [OF h1 h2 h3, of "Num 10" ?g] prem
  obtain i where i: "i + 1 < length (m_depths ?s')" "d_ge (Num 10) (Num (m_depths ?s' ! (i + 1)))"
    "getSetPointAtDepth ?g ?s (Num 10) True = Some (m_setPoints ?s' ! i)"
    by blast
  from i(1) have "i = 0 \<or> i = 1" by auto
  with i(2) have "i = 1" by auto
  with i(3) have b: "getSetPointAtDepth ?g ?s (Num 10) True = Some 1.5" by simp
  have c: "d_lt (Num 3) (Num 6)" "d_lt (Num 10) (Num 40)" "d_ge (Num 10) (Num 6)" by simp_all
  from h1 h2 h3 a b c show ?thesis by blast
qed

text \<open>
  Claim C9, as the code has it. For every non-empty setpoint list, the function returns
  from case A, case B or the loop of case C, and not from the \<open>return\<close> after the loop,
  whenever the depth is a number or \<open>boosted\<close> is false. When the depth is NaN and
  \<open>boosted\<close> is true, every comparison of the three cases is false and the \<open>return\<close>
  after the loop is the one that returns, with \<open>m_setPoints[0]\<close>.
\<close>

theorem getSetPointAtDepth_branches:
  assumes "well_formed s" "m_depths s \<noteq> []"
  shows "\<exists>b v s'. getSetPointAtDepth_traced g_parameters s depth boosted = Some ((b, v), s') \<and>
           (depth \<noteq> NaN \<or> \<not> boosted \<longrightarrow>
              (b = CaseA \<or> b = CaseB \<or> (\<exists>i. b = CaseC i)) \<and> b \<noteq> Fallback) \<and>
           (depth = NaN \<and> boosted \<longrightarrow> b = Fallback \<and> v = m_setPoints s' ! 0)"
proof (cases depth)
  case (Num r)
  from assms obtain s' where
    A: "r \<ge> m_depths s' ! 0 \<or> \<not> boosted \<Longrightarrow>
       getSetPointAtDepth_traced g_parameters s (Num r) boosted = Some ((CaseA, m_setPoints s' ! 0), s')"
    and B: "r < m_depths s' ! 0 \<Longrightarrow> boosted \<Longrightarrow> r < m_depths s' ! (length (m_depths s') - 1) \<Longrightarrow>
       getSetPointAtDepth_traced g_parameters s (Num r) boosted =
         Some ((CaseB, m_setPoints s' ! (length (m_depths s') - 1)), s')"
    and C: "r < m_depths s' ! 0 \<Longrightarrow> boosted \<Longrightarrow> r \<ge> m_depths s' ! (length (m_depths s') - 1) \<Longrightarrow>
       \<exists>k. k + 1 < length (m_depths s') \<and> r < m_depths s' ! k \<and> r \<ge> m_depths s' ! (k + 1) \<and>
           (\<forall>j<k. \<not> (r < m_depths s' ! j \<and> r \<ge> m_depths s' ! (j + 1))) \<and>
           getSetPointAtDepth_traced g_parameters s (Num r) boosted = Some ((CaseC k, m_setPoints s' ! k), s')"
    by (rule traced_cases [where depth = r and boosted = boosted and g = g_parameters]) blast
  consider (a) "r \<ge> m_depths s' ! 0 \<or> \<not> boosted"
    | (b) "r < m_depths s' ! 0" "boosted" "r < m_depths s' ! (length (m_depths s') - 1)"
    | (c) "r < m_depths s' ! 0" "boosted" "r \<ge> m_depths s' ! (length (m_depths s') - 1)"
    by linarith
  then show ?thesis
  proof cases
    case a
    from A [OF a] show ?thesis unfolding Num by simp
  next
    case b
    from B [OF b] show ?thesis unfolding Num by simp
  next
    case c
    from C [OF c] obtain k where
      "getSetPointAtDepth_traced g_parameters s (Num r) boosted = Some ((CaseC k, m_setPoints s' ! k), s')"
      by blast
    then show ?thesis unfolding Num by simp
  qed
next
  case NaN
  from assms(1) obtain s' where s': "sortSetPoints s = Some s'" "well_formed s'"
    "length (m_depths s') = length (m_depths s)"
    by (rule sortSetPoints_props)
  have ne: "m_depths s' \<noteq> []" using s'(3) assms(2) by auto
  show ?thesis
  proof (cases boosted)
    case True
    have "getSetPointAtDepth_traced g_parameters s NaN True = Some ((Fallback, m_setPoints s' ! 0), s')"
      using s'(1) s'(2) ne by (rule traced_NaN_boosted)
    then show ?thesis unfolding NaN using True by simp
  next
    case False
    have "getSetPointAtDepth_traced g_parameters s NaN False = Some ((CaseA, m_setPoints s' ! 0), s')"
      using s'(1) s'(2) ne by (rule traced_not_boosted)
    then show ?thesis unfolding NaN using False by simp
  qed
qed

theorem getSetPointAtDepth_branches_witness:
  "well_formed \<lparr>m_depths = [6, 40, 21], m_setPoints = [1.6, 1.4, 1.5]\<rparr> \<and>
   m_depths \<lparr>m_depths = [6, 40, 21], m_setPoints = [1.6, 1.4, 1.5]\<rparr> \<noteq> [] \<and>
   Num 6 \<noteq> NaN \<and>
   getSetPointAtDepth_traced \<lparr>m_maxPpO2Diluent = 0.7\<rparr>
     \<lparr>m_depths = [6, 40, 21], m_setPoints = [1.6, 1.4, 1.5]\<rparr> (Num 6) True =
     Some ((CaseC 1, 1.5), \<lparr>m_depths = [40, 21, 6], m_setPoints = [1.4, 1.5, 1.6]\<rparr>) \<and>
   (\<exists>b v s'. getSetPointAtDepth_traced \<lparr>m_maxPpO2Diluent = 0.7\<rparr>
     \<lparr>m_depths = [6, 40, 21], m_setPoints = [1.6, 1.4, 1.5]\<rparr> (Num 6) True = Some ((b, v), s') \<and>
     b \<noteq> Fallback) \<and>
   (\<exists>v s'. getSetPointAtDepth_traced \<lparr>m_maxPpO2Diluent = 0.7\<rparr>
     \<lparr>m_depths = [6, 40, 21], m_setPoints = [1.6, 1.4, 1.5]\<rparr> NaN True = Some ((Fallback, v), s'))"
proof -
  let ?s = "\<lparr>m_depths = [6, 40, 21], m_setPoints = [1.6, 1.4, 1.5]\<rparr>"
  let ?g = "\<lparr>m_maxPpO2Diluent = 0.7\<rparr>"
  have h1: "well_formed ?s" by (simp add: well_formed_def)
  have h2: "m_depths ?s \<noteq> []" by simp
  have h3: "getSetPointAtDepth_traced ?g ?s (Num 6) True =
     Some ((CaseC 1, 1.5), \<lparr>m_depths = [40, 21, 6], m_setPoints = [1.4, 1.5, 1.6]\<rparr>)"
    by (simp add: getSetPointAtDepth_traced_def sortSetPoints_def std_sort_def sort_before_def
        scan.simps vec_at_def)
  have h4: "Num 6 \<noteq> NaN" by simp
  from getSetPointAtDepth_branches [OF h1 h2, of ?g "Num 6" True] h4
  have a: "\<exists>b v s'. getSetPointAtDepth_traced ?g ?s (Num 6) True = Some ((b, v), s') \<and> b \<noteq> Fallback"
    by blast
  from getSetPointAtDepth_branches [OF h1 h2, of ?g NaN True]
  have b: "\<exists>v s'. getSetPointAtDepth_traced ?g ?s NaN True = Some ((Fallback, v), s')"
    by blast
  from h1 h2 h3 h4 a b show ?thesis by blast
qed

text \<open>
  A NaN depth with \<open>boosted = true\<close> on the list (40, 1.4), (6, 1.6): \<open>NaN >= 40\<close>,
  \<open>NaN < 6\<close> and the test of the only loop iteration are false, and the \<open>return\<close>
  after the loop returns.
\<close>

theorem getSetPointAtDepth_fallback_counterexample:
  "getSetPointAtDepth_traced \<lparr>m_maxPpO2Diluent = 0.7\<rparr>
     \<lparr>m_depths = [40, 6], m_setPoints = [1.4, 1.6]\<rparr> NaN True =
     Some ((Fallback, 1.4), \<lparr>m_depths = [40, 6], m_setPoints = [1.4, 1.6]\<rparr>)"
  by (simp add: getSetPointAtDepth_traced_def sortSetPoints_def std_sort_def sort_before_def
      scan.simps vec_at_def)

section \<open>Properties of sortSetPoints, addSetPoint and removeSetPoint\<close>



text \<open>
  Claim C10. \<open>removeSetPoint(index)\<close> with an index that is not below the number of
  setpoints changes neither vector; with an index below it, the entry at that position
  is removed from both vectors and the other entries keep their order.
\<close>

theorem removeSetPoint_effect:
  "(nbOfSetPoints s \<le> index \<longrightarrow> removeSetPoint index s = Some s) \<and>
   (well_formed s \<and> index < nbOfSetPoints s \<longrightarrow>
      removeSetPoint index s =
        Some \<lparr>m_depths = take index (m_depths s) @ drop (Suc index) (m_depths s),
              m_setPoints = take index (m_setPoints s) @ drop (Suc index) (m_setPoints s)\<rparr>)"
  by (simp add: removeSetPoint_def nbOfSetPoints_def vec_erase_def well_formed_def)

theorem removeSetPoint_effect_witness:
  "nbOfSetPoints \<lparr>m_depths = [40, 21, 6], m_setPoints = [1.4, 1.5, 1.6]\<rparr> \<le> 3 \<and>
   removeSetPoint 3 \<lparr>m_depths = [40, 21, 6], m_setPoints = [1.4, 1.5, 1.6]\<rparr> =
     Some \<lparr>m_depths = [40, 21, 6], m_setPoints = [1.4, 1.5, 1.6]\<rparr> \<and>
   well_formed \<lparr>m_depths = [40, 21, 6], m_setPoints = [1.4, 1.5, 1.6]\<rparr> \<and>
   1 < nbOfSetPoints \<lparr>m_depths = [40, 21, 6], m_setPoints = [1.4, 1.5, 1.6]\<rparr> \<and>
   removeSetPoint 1 \<lparr>m_depths = [40, 21, 6], m_setPoints = [1.4, 1.5, 1.6]\<rparr> =
     Some \<lparr>m_depths = [40, 6], m_setPoints = [1.4, 1.6]\<rparr>"
proof -
  let ?s = "\<lparr>m_depths = [40, 21, 6], m_setPoints = [1.4, 1.5, 1.6]\<rparr>"
  have h1: "nbOfSetPoints ?s \<le> 3" by (simp add: nbOfSetPoints_def)
  have h2: "well_formed ?s \<and> 1 < nbOfSetPoints ?s" by (simp add: well_formed_def nbOfSetPoints_def)
  have a: "removeSetPoint 3 ?s = Some ?s"
    using removeSetPoint_effect [of ?s 3] h1 by blast
  have "removeSetPoint 1 ?s =
        Some \<lparr>m_depths = take 1 (m_depths ?s) @ drop (Suc 1) (m_depths ?s),
              m_setPoints = take 1 (m_setPoints ?s) @ drop (Suc 1) (m_setPoints ?s)\<rparr>"
    using removeSetPoint_effect [of ?s 1] h2 by blast
  then have b: "removeSetPoint 1 ?s = Some \<lparr>m_depths = [40, 6], m_setPoints = [1.4, 1.6]\<rparr>"
    by simp
  from h1 h2 a b show ?thesis by blast
qed

section \<open>Properties of the persistence functions\<close>

lemma setToDefault_empty:
  "setToDefault (s\<lparr>m_depths := [], m_setPoints := []\<rparr>) =
     Some (s\<lparr>m_depths := [1000, 40, 21, 6], m_setPoints := [1.3, 1.4, 1.5, 1.6]\<rparr>)"
  by (simp add: setToDefault_def addSetPoint_def sortSetPoints_def std_sort_def sort_before_def)

lemma write_setpoints_wf:
  "well_formed s \<Longrightarrow> i + n = length (m_depths s) \<Longrightarrow>
   write_setpoints s i n =
     Some (concat (map (\<lambda>e. [DoubleField (fst e), DoubleField (snd e)]) (drop i (pairs s))))"
proof (induction n arbitrary: i)
  case 0
  then show ?case by (simp add: pairs_def)
next
  case (Suc n)
  have i: "i < length (m_depths s)" "i < length (m_setPoints s)" "i < length (pairs s)"
    using Suc.prems by (auto simp: well_formed_def pairs_def)
  have "drop i (pairs s) = (m_depths s ! i, m_setPoints s ! i) # drop (Suc i) (pairs s)"
    using i by (simp add: pairs_def flip: Cons_nth_drop_Suc)
  moreover have "write_setpoints s (Suc i) n =
     Some (concat (map (\<lambda>e. [DoubleField (fst e), DoubleField (snd e)]) (drop (Suc i) (pairs s))))"
    using Suc.prems by (intro Suc.IH) auto
  ultimately show ?case using i by (simp add: vec_at_def)
qed

lemma saveSetPointsToFile_wf:
  "well_formed s \<Longrightarrow> writable d \<Longrightarrow>
   saveSetPointsToFile d s =
     Some (True, d\<lparr>fstate := Content (SizeField (length (pairs s)) #
        concat (map (\<lambda>e. [DoubleField (fst e), DoubleField (snd e)]) (pairs s)))\<rparr>)"
  by (simp add: saveSetPointsToFile_def nbOfSetPoints_def write_setpoints_wf Let_def)
     (simp add: pairs_def well_formed_def)

lemma saveSetPointsToFile_defined:
  assumes "well_formed s"
  shows "\<exists>saved d'. saveSetPointsToFile d s = Some (saved, d')"
proof (cases "writable d")
  case True
  with assms show ?thesis by (auto simp: saveSetPointsToFile_wf)
next
  case False
  then show ?thesis by (auto simp: saveSetPointsToFile_def)
qed

lemma read_setpoints_written:
  "read_setpoints (length ps)
     \<lparr>rest = concat (map (\<lambda>e. [DoubleField (fst e), DoubleField (snd e)]) ps) @ tl_fs, failbit = False\<rparr> s =
   Some (s\<lparr>m_depths := m_depths s @ map fst ps, m_setPoints := m_setPoints s @ map snd ps\<rparr>)"
  by (induction ps arbitrary: s) (simp_all add: read_def)

lemma read_gases_written:
  "read_gases (length gs) \<lparr>rest = write_gases gs @ tl_fs, failbit = False\<rparr> gl =
   gl\<lparr>gases := gases gl @ gs\<rparr>"
  by (induction gs arbitrary: gl) (simp_all add: read_def addGas_def Gas_ctor_def)

lemma loadGaslistFromFile_saved:
  "writable d \<Longrightarrow> saveGaslistToFile d gl = (True, d') \<Longrightarrow>
   loadGaslistFromFile d' gl0 = (True, gl0\<lparr>gases := gases gl\<rparr>, d')"
  using read_gases_written [of "gases gl" "[]" "gl0\<lparr>gases := []\<rparr>"]
  by (auto simp: saveGaslistToFile_def loadGaslistFromFile_def read_def)


lemma loadSetPointsFromFile_saved:
  assumes "well_formed s" "writable d" "saveSetPointsToFile d s = Some (True, d')"
  shows "loadSetPointsFromFile d' s0 =
     Some (True,
           (if m_depths s = []
            then s0\<lparr>m_depths := [1000, 40, 21, 6], m_setPoints := [1.3, 1.4, 1.5, 1.6]\<rparr>
            else s0\<lparr>m_depths := m_depths s, m_setPoints := m_setPoints s\<rparr>), d')"
proof -
  let ?fs = "concat (map (\<lambda>e. [DoubleField (fst e), DoubleField (snd e)]) (pairs s))"
  have d': "d' = d\<lparr>fstate := Content (SizeField (length (pairs s)) # ?fs)\<rparr>"
    using assms by (simp add: saveSetPointsToFile_wf)
  have rd: "read as_size \<lparr>rest = SizeField (length (pairs s)) # ?fs, failbit = False\<rparr> =
      (Some (length (pairs s)), \<lparr>rest = ?fs, failbit = False\<rparr>)"
    by (simp add: read_def)
  have "read_setpoints (length (pairs s)) \<lparr>rest = ?fs @ [], failbit = False\<rparr>
          (s0\<lparr>m_depths := [], m_setPoints := []\<rparr>) =
        Some (s0\<lparr>m_depths := [], m_setPoints := []\<rparr>
               \<lparr>m_depths := m_depths (s0\<lparr>m_depths := [], m_setPoints := []\<rparr>) @ map fst (pairs s),
                m_setPoints := m_setPoints (s0\<lparr>m_depths := [], m_setPoints := []\<rparr>) @ map snd (pairs s)\<rparr>)"
    by (rule read_setpoints_written)
  moreover have "map fst (pairs s) = m_depths s" "map snd (pairs s) = m_setPoints s"
    using assms(1) by (simp_all add: pairs_def well_formed_def)
  ultimately have rs: "read_setpoints (length (pairs s)) \<lparr>rest = ?fs, failbit = False\<rparr>
          (s0\<lparr>m_depths := [], m_setPoints := []\<rparr>) =
        Some (s0\<lparr>m_depths := m_depths s, m_setPoints := m_setPoints s\<rparr>)"
    by simp
  show ?thesis
  proof (cases "m_depths s = []")
    case True
    then have "m_setPoints s = []" using assms(1) by (simp add: well_formed_def)
    with True rs rd show ?thesis
      by (simp add: loadSetPointsFromFile_def d' setToDefault_empty)
  next
    case False
    with rs rd show ?thesis
      by (simp add: loadSetPointsFromFile_def d')
  qed
qed

text \<open>
  Claim C5, as the code has it. When the file can be written, saving a gas list and
  loading the file back yields the same gases in the same order, and so does saving and
  loading a setpoint list that has at least one entry. An empty setpoint list is not
  read back as it was: the loader finds no entry and seeds the four default setpoints.
\<close>

theorem save_load_roundtrip:
  assumes "writable d"
  shows "(\<exists>d'. saveGaslistToFile d gl = (True, d') \<and>
                loadGaslistFromFile d' gl0 = (True, gl, d')) \<and>
         (well_formed s \<longrightarrow>
            (\<exists>d'. saveSetPointsToFile d s = Some (True, d') \<and>
                  loadSetPointsFromFile d' s0 =
                    Some (True,
                          (if m_depths s = []
                           then \<lparr>m_depths = [1000, 40, 21, 6], m_setPoints = [1.3, 1.4, 1.5, 1.6]\<rparr>
                           else s), d')))"
proof
  obtain d' where d': "saveGaslistToFile d gl = (True, d')"
    using assms by (simp add: saveGaslistToFile_def)
  from assms d' have "loadGaslistFromFile d' gl0 = (True, gl0\<lparr>gases := gases gl\<rparr>, d')"
    by (rule loadGaslistFromFile_saved)
  with d' show "\<exists>d'. saveGaslistToFile d gl = (True, d') \<and>
                loadGaslistFromFile d' gl0 = (True, gl, d')"
    by simp
next
  show "well_formed s \<longrightarrow>
            (\<exists>d'. saveSetPointsToFile d s = Some (True, d') \<and>
                  loadSetPointsFromFile d' s0 =
                    Some (True,
                          (if m_depths s = []
                           then \<lparr>m_depths = [1000, 40, 21, 6], m_setPoints = [1.3, 1.4, 1.5, 1.6]\<rparr>
                           else s), d'))"
  proof
    assume wf: "well_formed s"
    then obtain d' where d': "saveSetPointsToFile d s = Some (True, d')"
      using assms by (simp add: saveSetPointsToFile_wf)
    from wf assms d' have "loadSetPointsFromFile d' s0 =
     Some (True,
           (if m_depths s = []
            then s0\<lparr>m_depths := [1000, 40, 21, 6], m_setPoints := [1.3, 1.4, 1.5, 1.6]\<rparr>
            else s0\<lparr>m_depths := m_depths s, m_setPoints := m_setPoints s\<rparr>), d')"
      by (rule loadSetPointsFromFile_saved)
    with d' show "\<exists>d'. saveSetPointsToFile d s = Some (True, d') \<and>
                  loadSetPointsFromFile d' s0 =
                    Some (True,
                          (if m_depths s = []
                           then \<lparr>m_depths = [1000, 40, 21, 6], m_setPoints = [1.3, 1.4, 1.5, 1.6]\<rparr>
                           else s), d')"
      by simp
  qed
qed

theorem save_load_roundtrip_witness:
  "writable \<lparr>fstate = Missing, writable = True\<rparr> \<and>
   well_formed \<lparr>m_depths = [40, 6], m_setPoints = [1.3, 1.0]\<rparr> \<and>
   saveGaslistToFile \<lparr>fstate = Missing, writable = True\<rparr>
       \<lparr>gases = [Gas_ctor 18 45 BOTTOM ACTIVE, Gas_ctor 50 0 DECO INACTIVE]\<rparr> =
     (True, \<lparr>fstate = Content [SizeField 2,
          DoubleField 18, DoubleField 45, GasTypeField BOTTOM, GasStatusField ACTIVE,
          DoubleField 50, DoubleField 0, GasTypeField DECO, GasStatusField INACTIVE], writable = True\<rparr>) \<and>
   loadGaslistFromFile \<lparr>fstate = Content [SizeField 2,
          DoubleField 18, DoubleField 45, GasTypeField BOTTOM, GasStatusField ACTIVE,
          DoubleField 50, DoubleField 0, GasTypeField DECO, GasStatusField INACTIVE], writable = True\<rparr>
       \<lparr>gases = []\<rparr> =
     (True, \<lparr>gases = [Gas_ctor 18 45 BOTTOM ACTIVE, Gas_ctor 50 0 DECO INACTIVE]\<rparr>,
      \<lparr>fstate = Content [SizeField 2,
          DoubleField 18, DoubleField 45, GasTypeField BOTTOM, GasStatusField ACTIVE,
          DoubleField 50, DoubleField 0, GasTypeField DECO, GasStatusField INACTIVE], writable = True\<rparr>) \<and>
   saveSetPointsToFile \<lparr>fstate = Missing, writable = True\<rparr>
       \<lparr>m_depths = [40, 6], m_setPoints = [1.3, 1.0]\<rparr> =
     Some (True, \<lparr>fstate = Content [SizeField 2,
          DoubleField 40, DoubleField 1.3, DoubleField 6, DoubleField 1.0], writable = True\<rparr>) \<and>
   loadSetPointsFromFile \<lparr>fstate = Content [SizeField 2,
          DoubleField 40, DoubleField 1.3, DoubleField 6, DoubleField 1.0], writable = True\<rparr>
       \<lparr>m_depths = [], m_setPoints = []\<rparr> =
     Some (True, \<lparr>m_depths = [40, 6], m_setPoints = [1.3, 1.0]\<rparr>,
       \<lparr>fstate = Content [SizeField 2,
          DoubleField 40, DoubleField 1.3, DoubleField 6, DoubleField 1.0], writable = True\<rparr>)"
proof -
  let ?d = "\<lparr>fstate = Missing, writable = True\<rparr>"
  let ?gl = "\<lparr>gases = [Gas_ctor 18 45 BOTTOM ACTIVE, Gas_ctor 50 0 DECO INACTIVE]\<rparr>"
  let ?s = "\<lparr>m_depths = [40, 6], m_setPoints = [1.3, 1.0]\<rparr>"
  have h1: "writable ?d" by simp
  have h2: "well_formed ?s" by (simp add: well_formed_def)
  have g1: "saveGaslistToFile ?d ?gl =
     (True, \<lparr>fstate = Content [SizeField 2,
          DoubleField 18, DoubleField 45, GasTypeField BOTTOM, GasStatusField ACTIVE,
          DoubleField 50, DoubleField 0, GasTypeField DECO, GasStatusField INACTIVE], writable = True\<rparr>)"
    by (simp add: saveGaslistToFile_def Gas_ctor_def)
  have s1: "saveSetPointsToFile ?d ?s =
     Some (True, \<lparr>fstate = Content [SizeField 2,
          DoubleField 40, DoubleField 1.3, DoubleField 6, DoubleField 1.0], writable = True\<rparr>)"
    by (simp add: saveSetPointsToFile_def nbOfSetPoints_def vec_at_def numeral_2_eq_2)
  from save_load_roundtrip [OF h1, of ?gl "\<lparr>gases = []\<rparr>" ?s "\<lparr>m_depths = [], m_setPoints = []\<rparr>"] h2 g1 s1
  show ?thesis by simp
qed

text \<open>The empty setpoint list, saved and loaded, comes back as the four defaults.\<close>

theorem save_load_roundtrip_counterexample:
  "saveSetPointsToFile \<lparr>fstate = Missing, writable = True\<rparr> \<lparr>m_depths = [], m_setPoints = []\<rparr> =
     Some (True, \<lparr>fstate = Content [SizeField 0], writable = True\<rparr>) \<and>
   loadSetPointsFromFile \<lparr>fstate = Content [SizeField 0], writable = True\<rparr>
       \<lparr>m_depths = [], m_setPoints = []\<rparr> =
     Some (True, \<lparr>m_depths = [1000, 40, 21, 6], m_setPoints = [1.3, 1.4, 1.5, 1.6]\<rparr>,
           \<lparr>fstate = Content [SizeField 0], writable = True\<rparr>) \<and>
   \<lparr>m_depths = [1000, 40, 21, 6], m_setPoints = [1.3, 1.4, 1.5, 1.6]\<rparr> \<noteq>
     \<lparr>m_depths = [], m_setPoints = []\<rparr>"
  by (simp add: saveSetPointsToFile_def nbOfSetPoints_def loadSetPointsFromFile_def read_def
      setToDefault_def addSetPoint_def sortSetPoints_def std_sort_def sort_before_def)

text \<open>
  The two loaders on a missing file. The gas list as constructed holds a single gas,
  Bottom and Active with 21% oxygen and no helium (the loader seeds it into an empty list
  and keeps a list that has entries); \<open>loadSetPointsFromFile\<close> by itself leaves the four
  setpoints (1000, 1.3), (40, 1.4), (21, 1.5) and (6, 1.6).
\<close>

lemma missing_file_loaders:
  assumes "fstate d = Missing"
  shows "(\<exists>d'. GasList_ctor d =
            (False, \<lparr>gases = [\<lparr>m_o2Percent = 21, m_hePercent = 0,
                                m_gasType = BOTTOM, m_gasStatus = ACTIVE\<rparr>]\<rparr>, d')) \<and>
         (\<exists>d'. loadGaslistFromFile d gl =
            (False,
             (if gases gl = []
              then gl\<lparr>gases := [\<lparr>m_o2Percent = 21, m_hePercent = 0,
                                   m_gasType = BOTTOM, m_gasStatus = ACTIVE\<rparr>]\<rparr>
              else gl), d')) \<and>
         (\<exists>d'. loadSetPointsFromFile d s =
            Some (False,
                  s\<lparr>m_depths := [1000, 40, 21, 6], m_setPoints := [1.3, 1.4, 1.5, 1.6]\<rparr>, d'))"
proof -
  have g: "\<exists>d'. loadGaslistFromFile d gl =
            (False,
             (if gases gl = []
              then gl\<lparr>gases := [\<lparr>m_o2Percent = 21, m_hePercent = 0,
                                   m_gasType = BOTTOM, m_gasStatus = ACTIVE\<rparr>]\<rparr>
              else gl), d')" for gl
    using assms
    by (simp add: loadGaslistFromFile_def saveGaslistToFile_def addGas_def Gas_ctor_def)
  have c: "\<exists>d'. GasList_ctor d =
            (False, \<lparr>gases = [\<lparr>m_o2Percent = 21, m_hePercent = 0,
                                m_gasType = BOTTOM, m_gasStatus = ACTIVE\<rparr>]\<rparr>, d')"
    using g [of "\<lparr>gases = []\<rparr>"] by (simp add: GasList_ctor_def)
  let ?s1 = "s\<lparr>m_depths := [1000, 40, 21, 6], m_setPoints := [1.3, 1.4, 1.5, 1.6]\<rparr>"
  have "well_formed ?s1" by (simp add: well_formed_def)
  then obtain saved d' where "saveSetPointsToFile d ?s1 = Some (saved, d')"
    using saveSetPointsToFile_defined by blast
  then have "loadSetPointsFromFile d s = Some (False, ?s1, d')"
    using assms by (simp add: loadSetPointsFromFile_def setToDefault_empty)
  with g c show ?thesis by blast
qed

lemma missing_file_loaders_example:
  "fstate \<lparr>fstate = Missing, writable = True\<rparr> = Missing \<and>
   GasList_ctor \<lparr>fstate = Missing, writable = True\<rparr> =
     (False, \<lparr>gases = [\<lparr>m_o2Percent = 21, m_hePercent = 0,
                         m_gasType = BOTTOM, m_gasStatus = ACTIVE\<rparr>]\<rparr>,
      \<lparr>fstate = Content [SizeField 1, DoubleField 21, DoubleField 0,
                          GasTypeField BOTTOM, GasStatusField ACTIVE], writable = True\<rparr>) \<and>
   (\<exists>d'. loadSetPointsFromFile \<lparr>fstate = Missing, writable = True\<rparr>
            \<lparr>m_depths = [3], m_setPoints = [0.7]\<rparr> =
      Some (False, \<lparr>m_depths = [1000, 40, 21, 6], m_setPoints = [1.3, 1.4, 1.5, 1.6]\<rparr>, d'))"
proof -
  let ?d = "\<lparr>fstate = Missing, writable = True\<rparr>"
  have h: "fstate ?d = Missing" by simp
  have a: "GasList_ctor ?d =
     (False, \<lparr>gases = [\<lparr>m_o2Percent = 21, m_hePercent = 0,
                         m_gasType = BOTTOM, m_gasStatus = ACTIVE\<rparr>]\<rparr>,
      \<lparr>fstate = Content [SizeField 1, DoubleField 21, DoubleField 0,
                          GasTypeField BOTTOM, GasStatusField ACTIVE], writable = True\<rparr>)"
    by (simp add: GasList_ctor_def loadGaslistFromFile_def saveGaslistToFile_def addGas_def
        Gas_ctor_def)
  from missing_file_loaders [OF h, of "\<lparr>gases = []\<rparr>" "\<lparr>m_depths = [3], m_setPoints = [0.7]\<rparr>"]
  have "\<exists>d'. loadSetPointsFromFile ?d \<lparr>m_depths = [3], m_setPoints = [0.7]\<rparr> =
      Some (False, \<lparr>m_depths = [1000, 40, 21, 6], m_setPoints = [1.3, 1.4, 1.5, 1.6]\<rparr>, d')"
    by simp
  with h a show ?thesis by blast
qed

text \<open>
  The constructor \<open>SetPoints::SetPoints()\<close> on a missing file: the loader has seeded the
  four defaults and returned \<open>false\<close>; the constructor then clears \<open>m_setPoints\<close> only and
  seeds again, so the first \<open>sortSetPoints\<close> finds five depths and one setpoint and reads
  \<open>m_setPoints\<close> past its end.
\<close>

lemma SetPoints_ctor_missing_file:
  "fstate d = Missing \<Longrightarrow> SetPoints_ctor d = None"
proof -
  assume m: "fstate d = Missing"
  let ?s1 = "\<lparr>m_depths = [1000, 40, 21, 6], m_setPoints = [1.3, 1.4, 1.5, 1.6]\<rparr>"
  have "well_formed ?s1" by (simp add: well_formed_def)
  then obtain saved d' where "saveSetPointsToFile d ?s1 = Some (saved, d')"
    using saveSetPointsToFile_defined by blast
  then have l: "loadSetPointsFromFile d \<lparr>m_depths = [], m_setPoints = []\<rparr> = Some (False, ?s1, d')"
    using m setToDefault_empty [of "\<lparr>m_depths = [], m_setPoints = []\<rparr>"]
    by (simp add: loadSetPointsFromFile_def)
  have "setToDefault \<lparr>m_depths = [1000, 40, 21, 6], m_setPoints = []\<rparr> = None"
    by (simp add: setToDefault_def addSetPoint_def sortSetPoints_def)
  with l show ?thesis by (simp add: SetPoints_ctor_def)
qed

text \<open>
  Claim C6. When the persistence file is missing at load time, the gas list is seeded
  with a single Bottom, Active gas of 21% oxygen and no helium, and the setpoint list
  with exactly the four entries (1000, 1.3), (40, 1.4), (21, 1.5), (6, 1.6). The gas list
  as constructed is that; the setpoint list as constructed is not. On the first start,
  with a writable disk and no setpoints file, \<open>loadSetPointsFromFile\<close> seeds the four
  entries, writes them and returns \<open>false\<close>; the constructor then clears \<open>m_setPoints\<close>
  but not \<open>m_depths\<close> and calls \<open>setToDefault\<close> again, whose first \<open>addSetPoint\<close> leaves
  five depths beside one setpoint, and \<open>sortSetPoints\<close> reads \<open>m_setPoints\<close> past its end.
\<close>

theorem SetPoints_ctor_first_start:
  "GasList_ctor \<lparr>fstate = Missing, writable = True\<rparr> =
     (False, \<lparr>gases = [\<lparr>m_o2Percent = 21, m_hePercent = 0,
                         m_gasType = BOTTOM, m_gasStatus = ACTIVE\<rparr>]\<rparr>,
      \<lparr>fstate = Content [SizeField 1, DoubleField 21, DoubleField 0,
                          GasTypeField BOTTOM, GasStatusField ACTIVE], writable = True\<rparr>) \<and>
   loadSetPointsFromFile \<lparr>fstate = Missing, writable = True\<rparr> \<lparr>m_depths = [], m_setPoints = []\<rparr> =
     Some (False, \<lparr>m_depths = [1000, 40, 21, 6], m_setPoints = [1.3, 1.4, 1.5, 1.6]\<rparr>,
           \<lparr>fstate = Content [SizeField 4, DoubleField 1000, DoubleField 1.3, DoubleField 40,
                              DoubleField 1.4, DoubleField 21, DoubleField 1.5, DoubleField 6,
                              DoubleField 1.6], writable = True\<rparr>) \<and>
   addSetPoint 1000 1.3 \<lparr>m_depths = [1000, 40, 21, 6], m_setPoints = []\<rparr> = None \<and>
   SetPoints_ctor \<lparr>fstate = Missing, writable = True\<rparr> = None"
proof -
  have g: "GasList_ctor \<lparr>fstate = Missing, writable = True\<rparr> =
     (False, \<lparr>gases = [\<lparr>m_o2Percent = 21, m_hePercent = 0,
                         m_gasType = BOTTOM, m_gasStatus = ACTIVE\<rparr>]\<rparr>,
      \<lparr>fstate = Content [SizeField 1, DoubleField 21, DoubleField 0,
                          GasTypeField BOTTOM, GasStatusField ACTIVE], writable = True\<rparr>)"
    by (simp add: GasList_ctor_def loadGaslistFromFile_def saveGaslistToFile_def addGas_def
        Gas_ctor_def)
  have sv: "saveSetPointsToFile \<lparr>fstate = Missing, writable = True\<rparr>
        \<lparr>m_depths = [1000, 40, 21, 6], m_setPoints = [1.3, 1.4, 1.5, 1.6]\<rparr> =
      Some (True, \<lparr>fstate = Content [SizeField 4, DoubleField 1000, DoubleField 1.3, DoubleField 40,
                              DoubleField 1.4, DoubleField 21, DoubleField 1.5, DoubleField 6,
                              DoubleField 1.6], writable = True\<rparr>)"
    by (simp add: saveSetPointsToFile_wf well_formed_def pairs_def)
  have l: "loadSetPointsFromFile \<lparr>fstate = Missing, writable = True\<rparr> \<lparr>m_depths = [], m_setPoints = []\<rparr> =
     Some (False, \<lparr>m_depths = [1000, 40, 21, 6], m_setPoints = [1.3, 1.4, 1.5, 1.6]\<rparr>,
           \<lparr>fstate = Content [SizeField 4, DoubleField 1000, DoubleField 1.3, DoubleField 40,
                              DoubleField 1.4, DoubleField 21, DoubleField 1.5, DoubleField 6,
                              DoubleField 1.6], writable = True\<rparr>)"
    using setToDefault_empty [of "\<lparr>m_depths = [], m_setPoints = []\<rparr>"] sv
    by (simp add: loadSetPointsFromFile_def)
  have a: "addSetPoint 1000 1.3 \<lparr>m_depths = [1000, 40, 21, 6], m_setPoints = []\<rparr> = None"
    by (simp add: addSetPoint_def sortSetPoints_def)
  have c: "SetPoints_ctor \<lparr>fstate = Missing, writable = True\<rparr> = None"
    by (rule SetPoints_ctor_missing_file) simp
  from g l a c show ?thesis by blast
qed

text \<open>
  Claim C7, as the code has it. When the file exists and cannot be opened, both loaders
  return \<open>false\<close>; the gas list is left as it was, and the setpoint list is left empty,
  because \<open>loadSetPointsFromFile\<close> clears both vectors before it looks at the file.
\<close>

theorem load_failure:
  "fstate d = Unopenable \<Longrightarrow>
     loadGaslistFromFile d gl = (False, gl, d) \<and>
     loadSetPointsFromFile d s = Some (False, s\<lparr>m_depths := [], m_setPoints := []\<rparr>, d)"
  by (simp add: loadGaslistFromFile_def loadSetPointsFromFile_def)

theorem load_failure_witness:
  "fstate \<lparr>fstate = Unopenable, writable = True\<rparr> = Unopenable \<and>
   loadGaslistFromFile \<lparr>fstate = Unopenable, writable = True\<rparr> \<lparr>gases = [Gas_ctor 32 0 DECO ACTIVE]\<rparr> =
     (False, \<lparr>gases = [Gas_ctor 32 0 DECO ACTIVE]\<rparr>, \<lparr>fstate = Unopenable, writable = True\<rparr>) \<and>
   loadSetPointsFromFile \<lparr>fstate = Unopenable, writable = True\<rparr> \<lparr>m_depths = [6], m_setPoints = [1.6]\<rparr> =
     Some (False, \<lparr>m_depths = [], m_setPoints = []\<rparr>, \<lparr>fstate = Unopenable, writable = True\<rparr>)"
proof -
  let ?u = "\<lparr>fstate = Unopenable, writable = True\<rparr>"
  let ?gl = "\<lparr>gases = [Gas_ctor 32 0 DECO ACTIVE]\<rparr>"
  let ?s = "\<lparr>m_depths = [6], m_setPoints = [1.6]\<rparr>"
  have h1: "fstate ?u = Unopenable" by simp
  from load_failure [OF h1, of ?gl ?s]
  have a: "loadGaslistFromFile ?u ?gl = (False, ?gl, ?u)"
    and b: "loadSetPointsFromFile ?u ?s = Some (False, \<lparr>m_depths = [], m_setPoints = []\<rparr>, ?u)"
    by simp_all
  from h1 a b show ?thesis by blast
qed

text \<open>A setpoints file that cannot be opened empties a list that had an entry.\<close>

theorem load_failure_counterexample:
  "loadSetPointsFromFile \<lparr>fstate = Unopenable, writable = True\<rparr>
       \<lparr>m_depths = [40], m_setPoints = [1.4]\<rparr> =
     Some (False, \<lparr>m_depths = [], m_setPoints = []\<rparr>, \<lparr>fstate = Unopenable, writable = True\<rparr>) \<and>
   \<lparr>m_depths = [], m_setPoints = []\<rparr> \<noteq> \<lparr>m_depths = [40], m_setPoints = [1.4]\<rparr>"
  by (simp add: loadSetPointsFromFile_def)

text \<open>
  A file that opens and cannot be read. Both loaders wrap their reads in \<open>try\<close> and
  return \<open>false\<close> from the \<open>catch\<close>, but a read of \<open>std::ifstream\<close> that fails throws
  nothing and the stream state is not tested, so that \<open>return false\<close> is not reached:
  a gas file that ends after its count is loaded as a success, with a gas made of the
  initial values of the four variables in place of the list, and an empty gas file
  empties the list. The gas loader reports no failure here and changes the list.
\<close>

lemma loadGaslistFromFile_short_file:
  "loadGaslistFromFile \<lparr>fstate = Content [SizeField 1], writable = True\<rparr>
       \<lparr>gases = [Gas_ctor 32 0 DECO ACTIVE]\<rparr> =
     (True, \<lparr>gases = [Gas_ctor 0 0 BOTTOM ACTIVE]\<rparr>,
      \<lparr>fstate = Content [SizeField 1], writable = True\<rparr>) \<and>
   loadGaslistFromFile \<lparr>fstate = Content [], writable = True\<rparr>
       \<lparr>gases = [Gas_ctor 32 0 DECO ACTIVE]\<rparr> =
     (True, \<lparr>gases = []\<rparr>, \<lparr>fstate = Content [], writable = True\<rparr>)"
  by (simp add: loadGaslistFromFile_def read_def addGas_def)

section \<open>Properties of the delete buttons\<close>

lemma deleteStopStep_nonempty:
  assumes "\<forall>row xs. length xs \<le> Suc (length (removeStopStep row xs))"
    and "m_stopSteps w \<noteq> []"
  shows "m_stopSteps (deleteStopStep removeStopStep row w) \<noteq> []"
proof (cases "\<not> m_isUpdating w \<and> 1 < length (m_stopSteps w)")
  case True
  have "length (m_stopSteps w) \<le> Suc (length (removeStopStep row (m_stopSteps w)))"
    using assms(1) by blast
  with True have "removeStopStep row (m_stopSteps w) \<noteq> []" by auto
  with True show ?thesis by (simp add: deleteStopStep_def nbOfStopSteps_def Let_def)
next
  case False
  with assms(2) show ?thesis by (auto simp: deleteStopStep_def nbOfStopSteps_def Let_def)
qed

lemma fold_deleteStopStep_nonempty:
  assumes "\<forall>row xs. length xs \<le> Suc (length (removeStopStep row xs))"
  shows "m_stopSteps w \<noteq> [] \<Longrightarrow> m_stopSteps (fold (deleteStopStep removeStopStep) rows w) \<noteq> []"
proof (induction rows arbitrary: w)
  case Nil
  then show ?case by simp
next
  case (Cons row rows)
  from assms Cons.prems have "m_stopSteps (deleteStopStep removeStopStep row w) \<noteq> []"
    by (rule deleteStopStep_nonempty)
  then show ?case using Cons.IH by simp
qed

lemma removeSetPoint_wf:
  assumes "well_formed s"
  shows "\<exists>s'. removeSetPoint index s = Some s' \<and> well_formed s' \<and>
              length (m_depths s) \<le> Suc (length (m_depths s'))"
  using assms by (auto simp: removeSetPoint_def vec_erase_def well_formed_def)

lemma deleteSetpoint_nonempty:
  assumes "well_formed s" "m_depths s \<noteq> []"
  shows "\<exists>s' d'. deleteSetpoint row (s, d) = Some (s', d') \<and> well_formed s' \<and> m_depths s' \<noteq> []"
proof (cases "\<not> (row < 0 \<or> row \<ge> static_cast_int (nbOfSetPoints s)) \<and> nbOfSetPoints s > 1")
  case True
  from assms(1) obtain s1 where s1: "removeSetPoint (nat row) s = Some s1" "well_formed s1"
    "length (m_depths s) \<le> Suc (length (m_depths s1))"
    using removeSetPoint_wf by blast
  from s1(2) obtain saved d1 where "saveSetPointsToFile d s1 = Some (saved, d1)"
    using saveSetPointsToFile_defined by blast
  with True s1(1) have "deleteSetpoint row (s, d) = Some (s1, d1)"
    by (simp add: deleteSetpoint_def)
  moreover have "m_depths s1 \<noteq> []" using True s1(3) by (auto simp: nbOfSetPoints_def)
  ultimately show ?thesis using s1(2) by blast
next
  case False
  then have "deleteSetpoint row (s, d) = Some (s, d)"
    by (auto simp: deleteSetpoint_def)
  with assms show ?thesis by blast
qed

lemma deleteSetpoints_nonempty:
  "well_formed s \<Longrightarrow> m_depths s \<noteq> [] \<Longrightarrow>
   \<exists>s' d'. deleteSetpoints rows (s, d) = Some (s', d') \<and> well_formed s' \<and> m_depths s' \<noteq> []"
proof (induction rows arbitrary: s d)
  case Nil
  then show ?case by simp
next
  case (Cons row rows)
  from Cons.prems obtain s1 d1 where 1: "deleteSetpoint row (s, d) = Some (s1, d1)"
    "well_formed s1" "m_depths s1 \<noteq> []"
    using deleteSetpoint_nonempty by blast
  from Cons.IH [OF 1(2) 1(3)] obtain s' d' where
    "deleteSetpoints rows (s1, d1) = Some (s', d')" "well_formed s'" "m_depths s' \<noteq> []"
    by blast
  with 1(1) show ?case by simp
qed

text \<open>
  Claim C8. \<open>deleteStopStep\<close> and \<open>deleteSetpoint\<close> leave a list of exactly one element
  as it is, and after any sequence of delete operations on a non-empty list the list is
  still non-empty. For the stop steps this holds for every \<open>removeStopStep\<close> that removes
  at most one element in a call.
\<close>

theorem delete_keeps_one_entry:
  assumes "\<forall>row xs. length xs \<le> Suc (length (removeStopStep row xs))"
  shows "(length (m_stopSteps w) = 1 \<longrightarrow>
            m_stopSteps (deleteStopStep removeStopStep row w) = m_stopSteps w) \<and>
         (m_stopSteps w \<noteq> [] \<longrightarrow>
            m_stopSteps (fold (deleteStopStep removeStopStep) rows w) \<noteq> []) \<and>
         (nbOfSetPoints s = 1 \<longrightarrow> deleteSetpoint row (s, d) = Some (s, d)) \<and>
         (well_formed s \<and> nbOfSetPoints s \<noteq> 0 \<longrightarrow>
            (\<exists>s' d'. deleteSetpoints rows (s, d) = Some (s', d') \<and>
                     well_formed s' \<and> nbOfSetPoints s' \<noteq> 0))"
proof -
  have 1: "length (m_stopSteps w) = 1 \<longrightarrow>
            m_stopSteps (deleteStopStep removeStopStep row w) = m_stopSteps w"
    by (simp add: deleteStopStep_def nbOfStopSteps_def Let_def)
  have 2: "m_stopSteps w \<noteq> [] \<longrightarrow>
            m_stopSteps (fold (deleteStopStep removeStopStep) rows w) \<noteq> []"
    using fold_deleteStopStep_nonempty [OF assms] by blast
  have 3: "nbOfSetPoints s = 1 \<longrightarrow> deleteSetpoint row (s, d) = Some (s, d)"
    by (simp add: deleteSetpoint_def)
  have 4: "well_formed s \<and> nbOfSetPoints s \<noteq> 0 \<longrightarrow>
            (\<exists>s' d'. deleteSetpoints rows (s, d) = Some (s', d') \<and>
                     well_formed s' \<and> nbOfSetPoints s' \<noteq> 0)"
    using deleteSetpoints_nonempty [of s rows d] by (simp add: nbOfSetPoints_def)
  from 1 2 3 4 show ?thesis by blast
qed

theorem delete_keeps_one_entry_witness:
  "(\<forall>row xs. length xs \<le> Suc (length
       ((\<lambda>row xs. if 0 \<le> row \<and> nat row < length xs
                  then take (nat row) xs @ drop (Suc (nat row)) xs else xs) row (xs :: StopStep list)))) \<and>
   m_stopSteps (deleteStopStep
       (\<lambda>row xs. if 0 \<le> row \<and> nat row < length xs
                  then take (nat row) xs @ drop (Suc (nat row)) xs else xs) 0
       \<lparr>m_isUpdating = False, m_stopSteps = [\<lparr>m_depth = 6, m_time = 3\<rparr>]\<rparr>) =
     [\<lparr>m_depth = 6, m_time = 3\<rparr>] \<and>
   m_stopSteps (fold (deleteStopStep
       (\<lambda>row xs. if 0 \<le> row \<and> nat row < length xs
                  then take (nat row) xs @ drop (Suc (nat row)) xs else xs)) [0, 0, 0]
       \<lparr>m_isUpdating = False,
        m_stopSteps = [\<lparr>m_depth = 21, m_time = 1\<rparr>, \<lparr>m_depth = 6, m_time = 3\<rparr>]\<rparr>) \<noteq> [] \<and>
   deleteSetpoint 0 (\<lparr>m_depths = [6], m_setPoints = [1.6]\<rparr>, \<lparr>fstate = Missing, writable = True\<rparr>) =
     Some (\<lparr>m_depths = [6], m_setPoints = [1.6]\<rparr>, \<lparr>fstate = Missing, writable = True\<rparr>) \<and>
   (\<exists>s' d'. deleteSetpoints [0, 0, 0]
        (\<lparr>m_depths = [40, 21, 6], m_setPoints = [1.4, 1.5, 1.6]\<rparr>,
         \<lparr>fstate = Missing, writable = True\<rparr>) = Some (s', d') \<and>
      well_formed s' \<and> nbOfSetPoints s' \<noteq> 0)"
proof -
  let ?rm = "\<lambda>(row::int) (xs::StopStep list). if 0 \<le> row \<and> nat row < length xs
                  then take (nat row) xs @ drop (Suc (nat row)) xs else xs"
  let ?d = "\<lparr>fstate = Missing, writable = True\<rparr>"
  have h: "\<forall>row xs. length xs \<le> Suc (length (?rm row xs))" by auto
  have a: "m_stopSteps (deleteStopStep ?rm 0
       \<lparr>m_isUpdating = False, m_stopSteps = [\<lparr>m_depth = 6, m_time = 3\<rparr>]\<rparr>) =
     [\<lparr>m_depth = 6, m_time = 3\<rparr>]"
    using delete_keeps_one_entry [OF h,
        of "\<lparr>m_isUpdating = False, m_stopSteps = [\<lparr>m_depth = 6, m_time = 3\<rparr>]\<rparr>" 0]
    by simp
  have b: "m_stopSteps (fold (deleteStopStep ?rm) [0, 0, 0]
       \<lparr>m_isUpdating = False,
        m_stopSteps = [\<lparr>m_depth = 21, m_time = 1\<rparr>, \<lparr>m_depth = 6, m_time = 3\<rparr>]\<rparr>) \<noteq> []"
    using delete_keeps_one_entry [OF h,
        of "\<lparr>m_isUpdating = False,
        m_stopSteps = [\<lparr>m_depth = 21, m_time = 1\<rparr>, \<lparr>m_depth = 6, m_time = 3\<rparr>]\<rparr>" _ "[0, 0, 0]"]
    by simp
  have c: "deleteSetpoint 0 (\<lparr>m_depths = [6], m_setPoints = [1.6]\<rparr>, ?d) =
     Some (\<lparr>m_depths = [6], m_setPoints = [1.6]\<rparr>, ?d)"
    using delete_keeps_one_entry [OF h, of _ 0 _ "\<lparr>m_depths = [6], m_setPoints = [1.6]\<rparr>" ?d]
    by (simp add: nbOfSetPoints_def)
  have e: "\<exists>s' d'. deleteSetpoints [0, 0, 0]
        (\<lparr>m_depths = [40, 21, 6], m_setPoints = [1.4, 1.5, 1.6]\<rparr>, ?d) = Some (s', d') \<and>
      well_formed s' \<and> nbOfSetPoints s' \<noteq> 0"
    using delete_keeps_one_entry [OF h,
        of _ _ "[0, 0, 0]" "\<lparr>m_depths = [40, 21, 6], m_setPoints = [1.4, 1.5, 1.6]\<rparr>" ?d]
    by (simp add: nbOfSetPoints_def well_formed_def)
  from h a b c e show ?thesis by blast
qed

end
